theory Spec2Isabelle
  imports Main "HOL-Library.Word"
begin

section \<open>Errors\<close>

text \<open>
  Every panic and every error return of the Go code is a value of this type.
  \<^item> \<open>NetworkNameUnreachable msg\<close>: the \<^verbatim>\<open>panic(fmt.Sprintf(...))\<close> that ends
    \<^verbatim>\<open>NetworkName.Network\<close>, with the formatted message;
  \<^item> \<open>TransactionIsFrozen\<close>: what \<^verbatim>\<open>requireNotFrozen\<close> raises;
  \<^item> \<open>IndexOutOfRange\<close>: the Go runtime panic of a slice index past the end;
  \<^item> \<open>NilPointerDereference\<close>: the Go runtime panic of a field read through nil;
  \<^item> \<open>errClientOperatorSigning\<close>: returned by \<^verbatim>\<open>SignWithOperator\<close>;
  \<^item> \<open>errNoTransactionID\<close>, \<open>errNoNodeID\<close>: the two ways freezing can fail.
\<close>

datatype error =
    NetworkNameUnreachable string
  | TransactionIsFrozen
  | IndexOutOfRange
  | NilPointerDereference
  | errClientOperatorSigning
  | errNoTransactionID
  | errNoNodeID

section \<open>network_name.go\<close>

type_synonym NetworkName = string

definition NetworkNameMainnet :: NetworkName where
  "NetworkNameMainnet = ''mainnet''"

definition NetworkNameTestnet :: NetworkName where
  "NetworkNameTestnet = ''testnet''"

definition NetworkNamePreviewnet :: NetworkName where
  "NetworkNamePreviewnet = ''previewnet''"

text \<open>
  \<^verbatim>\<open>func (networkName NetworkName) Network() string\<close>: a switch over the three
  constants, in the order of the source, and the panic after it.
\<close>

definition Network :: "NetworkName \<Rightarrow> error + string" where
  "Network networkName =
     (if networkName = NetworkNameMainnet then Inr ''0''
      else if networkName = NetworkNameTestnet then Inr ''1''
      else if networkName = NetworkNamePreviewnet then Inr ''2''
      else Inl (NetworkNameUnreachable
        (''unreacahble: NetworkName.Network() switch statement is non-exhaustive. NetworkName: ''
          @ networkName)))"

section \<open>Data model\<close>

text \<open>
  \<^verbatim>\<open>transfer_transaction.go\<close> declares \<^verbatim>\<open>TransferTransaction\<close> only; the other types
  are declared in other files of the SDK and in its protobuf package. Their records
  below hold the fields that \<^verbatim>\<open>transfer_transaction.go\<close> reads and writes, and where
  the source only calls a method, the fields of the specification's data model.
\<close>

type_synonym bytes = "8 word list"

text \<open>
  Modelled from the spec: \<^verbatim>\<open>AccountID\<close>, an \<open>EntityID\<close> \<open>{shard, realm, num}\<close>. The
  optional checksum "is not part of identity equality" and is left out, so that HOL
  equality is the identity of the entity. The protobuf message of an identifier
  carries the same three numbers (\<^verbatim>\<open>toProtobuf\<close> copies them), and the embedding uses
  one type on both sides.
\<close>

record AccountID =
  AccountID_Shard :: "64 word"
  AccountID_Realm :: "64 word"
  Account :: "64 word"

text \<open>
  Modelled from the spec: \<^verbatim>\<open>TokenID\<close>, an \<open>EntityID\<close> as well; HOL equality is the key
  equality of \<^verbatim>\<open>map[TokenID]int\<close>, and \<^verbatim>\<open>toProtobuf\<close> and \<^verbatim>\<open>tokenIDFromProtobuf\<close>
  copy the three numbers.
\<close>

record TokenID =
  TokenID_Shard :: "64 word"
  TokenID_Realm :: "64 word"
  TokenID_Token :: "64 word"

text \<open>\<^verbatim>\<open>Hbar\<close>, by the field \<^verbatim>\<open>AddHbarTransfer\<close> reads: an int64, kept as its 64 bits.\<close>

record Hbar =
  tinybar :: "64 word"

text \<open>
  \<^verbatim>\<open>proto.AccountAmount\<close>, \<^verbatim>\<open>proto.TransferList\<close>, \<^verbatim>\<open>proto.TokenTransferList\<close> and
  \<^verbatim>\<open>proto.CryptoTransferTransactionBody\<close>, with the fields of the composite literals
  of the source. \<open>Amount\<close> is an int64, kept as its 64 bits.
\<close>

record AccountAmount =
  AccountAmount_AccountID :: AccountID
  Amount :: "64 word"

record TransferList =
  AccountAmounts :: "AccountAmount list"

record TokenTransferList =
  Token :: TokenID
  TokenTransferList_Transfers :: "AccountAmount list"

record CryptoTransferTransactionBody =
  Transfers :: TransferList
  TokenTransfers :: "TokenTransferList list"

text \<open>
  Modelled from the spec: the SDK's \<^verbatim>\<open>TokenTransfer\<close>, the entry
  \<^verbatim>\<open>GetTokenTransfers\<close> returns for an account amount: the account and the amount.
\<close>

record TokenTransfer =
  TokenTransfer_AccountID :: AccountID
  TokenTransfer_Amount :: "64 word"

text \<open>
  Modelled from the spec: \<^verbatim>\<open>TransactionID\<close>, \<open>{payerAccountID, startTimestamp}\<close>; the
  source reads the payer as \<^verbatim>\<open>transactionID.AccountID\<close>.
\<close>

record TransactionID =
  TransactionID_AccountID :: AccountID
  ValidStart :: nat

text \<open>
  The \<^verbatim>\<open>Data\<close> field of \<^verbatim>\<open>proto.TransactionBody\<close> is a oneof holding a pointer.
  \<^verbatim>\<open>onFreeze\<close> stores the pointer \<^verbatim>\<open>transaction.pb\<close> in it, so the value
  \<open>TransactionBody_CryptoTransfer\<close> stands for "points to the \<open>pb\<close> of this
  transaction" (the two are aliases), and \<open>Data_nil\<close> for the unset oneof.
\<close>

datatype TransactionBody_Data = Data_nil | TransactionBody_CryptoTransfer

text \<open>
  Modelled from the spec: \<^verbatim>\<open>proto.TransactionBody\<close>, the \<open>bodyFields\<close> of a
  transaction: \<open>transactionID\<close> (unset at first), the "embedded node-account field",
  \<open>maxFee\<close> (0 while unset), \<open>validDuration\<close> and \<open>memo\<close>. \<open>Data\<close> is the field
  \<^verbatim>\<open>onFreeze\<close> writes.
\<close>

record TransactionBody =
  TransactionBody_TransactionID :: "TransactionID option"
  NodeAccountID :: "AccountID option"
  TransactionFee :: "64 word"
  TransactionValidDuration :: "64 word"
  Memo :: string
  Data :: TransactionBody_Data

text \<open>
  Modelled from the spec: the \<open>serializedBody\<close> of a candidate node, the bytes
  \<^verbatim>\<open>protobuf.Marshal\<close> produces for a body. They are kept as the marshalled content:
  the body and the transfer payload its \<^verbatim>\<open>Data\<close> pointer led to at that moment. The
  encoding into bytes itself is injective and is not modelled.
\<close>

datatype BodyBytes = Marshal TransactionBody "CryptoTransferTransactionBody option"

text \<open>\<^verbatim>\<open>proto.Transaction\<close>, by \<^verbatim>\<open>GetBodyBytes()\<close>, which \<^verbatim>\<open>SignWith\<close> calls.\<close>

record proto_Transaction =
  BodyBytes :: BodyBytes

text \<open>
  Modelled from the spec: \<^verbatim>\<open>PublicKey\<close>, by its \<open>keyBytes\<close>: "signature entries are
  keyed by public-key bytes". The scheme tag is left out.
\<close>

record PublicKey =
  keyData :: bytes

text \<open>
  Modelled from the spec: \<^verbatim>\<open>proto.SignaturePair\<close>, a signature entry: the public-key
  bytes it is keyed by and the raw signature bytes.
\<close>

record SignaturePair =
  PubKeyPrefix :: bytes
  Signature :: bytes

text \<open>\<^verbatim>\<open>proto.SignatureMap\<close>, by the field \<^verbatim>\<open>SigPair\<close> that \<^verbatim>\<open>SignWith\<close> appends to.\<close>

record SignatureMap =
  SigPair :: "SignaturePair list"

text \<open>\<^verbatim>\<open>TransactionSigner\<close>: the function from a message to its signature.\<close>

type_synonym TransactionSigner = "BodyBytes \<Rightarrow> bytes"

text \<open>
  Modelled from the spec: the client's operator, "the account+key pair a client uses
  as default payer/signer"; the source reads \<^verbatim>\<open>publicKey\<close> and \<^verbatim>\<open>signer\<close>.
\<close>

record Operator =
  Operator_accountID :: AccountID
  Operator_publicKey :: PublicKey
  Operator_signer :: TransactionSigner

text \<open>
  Modelled from the spec: the client context of section 6, "operator identity+signer,
  [...] pool of healthy node channels, default per-operation max fee". The source
  tests \<^verbatim>\<open>client.operator\<close> against nil. The current time, which a fresh TransactionID
  is made from, is a field of the context here (\<open>now\<close>). A nil \<^verbatim>\<open>*Client\<close> is \<open>None\<close>.
\<close>

record Client =
  operator :: "Operator option"
  maxTransactionFee :: Hbar
  network :: "AccountID list"
  now :: nat

text \<open>
  Modelled from the spec: the embedded \<^verbatim>\<open>Transaction\<close>. The source reads and writes
  \<open>pbBody\<close>, \<open>id\<close> (named \<open>id'\<close> here), \<open>transactions\<close> and \<open>signatures\<close>, the last
  two being the \<open>perNode\<close> bodies and signature maps; \<open>nodeIDs\<close> is the
  \<open>candidateNodeIDs\<close> and \<open>frozen\<close> the \<open>frozen: bool\<close> of the specification's data
  model.
\<close>

record Transaction =
  pbBody :: TransactionBody
  id' :: TransactionID
  transactions :: "proto_Transaction list"
  signatures :: "SignatureMap list"
  nodeIDs :: "AccountID list"
  frozen :: bool

text \<open>\<^verbatim>\<open>TransferTransaction\<close>, as the source declares it.\<close>

record TransferTransaction = Transaction +
  pb :: CryptoTransferTransactionBody
  tokenIndexes :: "TokenID \<rightharpoonup> nat"

text \<open>
  A method of the source returns the receiver, and may panic or return an error after
  it has written to the receiver. Its model returns the error, if any, together with
  the transaction as the call left it.
\<close>

type_synonym 'a outcome = "error option \<times> 'a"

section \<open>The embedded Transaction: methods called by transfer_transaction.go\<close>

text \<open>
  None of the methods of this section is defined in \<^verbatim>\<open>transfer_transaction.go\<close>;
  each is modelled from the sentence of the specification quoted with it.
\<close>

text \<open>
  Modelled from the spec: the zero value of \<^verbatim>\<open>AccountID\<close>, an \<open>EntityID\<close> with shard,
  realm and num 0.
\<close>

definition zeroAccountID :: AccountID where
  "zeroAccountID = \<lparr>AccountID_Shard = 0, AccountID_Realm = 0, Account = 0\<rparr>"

text \<open>
  Modelled from the spec: the zero value of \<^verbatim>\<open>TransactionID\<close>, what the field \<open>id\<close>
  holds while no TransactionID is set.
\<close>

definition zeroTransactionID :: TransactionID where
  "zeroTransactionID = \<lparr>TransactionID_AccountID = zeroAccountID, ValidStart = 0\<rparr>"

text \<open>
  Modelled from the spec: the body of a transaction in the mutable state of section
  4.4, with nothing set.
\<close>

definition newTransactionBody :: TransactionBody where
  "newTransactionBody =
     \<lparr>TransactionBody_TransactionID = None, NodeAccountID = None, TransactionFee = 0,
      TransactionValidDuration = 0, Memo = [], Data = Data_nil\<rparr>"

text \<open>
  Modelled from the spec: \<^verbatim>\<open>isFrozen\<close>, the \<open>frozen: bool\<close> of the data model.
\<close>

definition isFrozen :: "TransferTransaction \<Rightarrow> bool" where
  "isFrozen transaction = frozen transaction"

text \<open>
  Modelled from the spec: \<^verbatim>\<open>requireNotFrozen\<close>, "any setter on a non-mutable
  transaction fails with TransactionIsFrozen". The source ignores its result, so the
  failure is a panic.
\<close>

definition requireNotFrozen :: "TransferTransaction \<Rightarrow> error option" where
  "requireNotFrozen transaction =
     (if isFrozen transaction then Some TransactionIsFrozen else None)"

text \<open>
  Modelled from the spec: \<^verbatim>\<open>Transaction.SetMaxTransactionFee\<close>, "setters mutate body
  fields"; the field is \<open>maxFee\<close>.
\<close>

definition Transaction_SetMaxTransactionFee :: "Hbar \<Rightarrow> TransferTransaction \<Rightarrow> TransferTransaction" where
  "Transaction_SetMaxTransactionFee fee transaction =
     transaction\<lparr>pbBody := (pbBody transaction)\<lparr>TransactionFee := tinybar fee\<rparr>\<rparr>"

text \<open>
  Modelled from the spec: \<^verbatim>\<open>Transaction.SetTransactionMemo\<close>, "setters mutate body
  fields"; the field is \<open>memo\<close>.
\<close>

definition Transaction_SetTransactionMemo :: "string \<Rightarrow> TransferTransaction \<Rightarrow> TransferTransaction" where
  "Transaction_SetTransactionMemo memo transaction =
     transaction\<lparr>pbBody := (pbBody transaction)\<lparr>Memo := memo\<rparr>\<rparr>"

text \<open>
  Modelled from the spec: \<^verbatim>\<open>Transaction.SetTransactionValidDuration\<close>, "setters mutate
  body fields"; the field is \<open>validDuration\<close>.
\<close>

definition Transaction_SetTransactionValidDuration :: "64 word \<Rightarrow> TransferTransaction \<Rightarrow> TransferTransaction" where
  "Transaction_SetTransactionValidDuration duration transaction =
     transaction\<lparr>pbBody := (pbBody transaction)\<lparr>TransactionValidDuration := duration\<rparr>\<rparr>"

text \<open>
  Modelled from the spec: \<^verbatim>\<open>Transaction.SetTransactionID\<close>, "setters mutate body
  fields"; the field is \<open>transactionID\<close>, and writing it makes it set.
\<close>

definition Transaction_SetTransactionID :: "TransactionID \<Rightarrow> TransferTransaction \<Rightarrow> TransferTransaction" where
  "Transaction_SetTransactionID transactionID transaction =
     transaction\<lparr>pbBody := (pbBody transaction)\<lparr>TransactionBody_TransactionID := Some transactionID\<rparr>\<rparr>"

text \<open>
  Modelled from the spec: \<^verbatim>\<open>Transaction.SetNodeAccountIDs\<close>, the explicit override of
  \<open>candidateNodeIDs\<close>.
\<close>

definition Transaction_SetNodeAccountIDs :: "AccountID list \<Rightarrow> TransferTransaction \<Rightarrow> TransferTransaction" where
  "Transaction_SetNodeAccountIDs nodeID transaction = transaction\<lparr>nodeIDs := nodeID\<rparr>"

text \<open>
  Modelled from the spec: \<^verbatim>\<open>Transaction.GetTransactionID\<close>, the \<open>transactionID\<close> of the
  body, the zero value while it is unset.
\<close>

definition Transaction_GetTransactionID :: "TransferTransaction \<Rightarrow> TransactionID" where
  "Transaction_GetTransactionID transaction =
     (case TransactionBody_TransactionID (pbBody transaction) of
        None \<Rightarrow> zeroTransactionID
      | Some transactionID \<Rightarrow> transactionID)"

text \<open>
  Modelled from the spec: \<^verbatim>\<open>Transaction.GetNodeAccountIDs\<close>, the \<open>candidateNodeIDs\<close>.
\<close>

definition Transaction_GetNodeAccountIDs :: "TransferTransaction \<Rightarrow> AccountID list" where
  "Transaction_GetNodeAccountIDs transaction = nodeIDs transaction"

text \<open>
  Modelled from the spec: \<^verbatim>\<open>TransactionIDGenerate\<close>, "a fresh TransactionID from the
  context's payer account and current time".
\<close>

definition TransactionIDGenerate :: "nat \<Rightarrow> AccountID \<Rightarrow> TransactionID" where
  "TransactionIDGenerate time payer = \<lparr>TransactionID_AccountID = payer, ValidStart = time\<rparr>"

text \<open>
  Modelled from the spec: \<^verbatim>\<open>initFee\<close>, "if unset, computes default max fee
  (operation-type default or client-wide override)". A fee of 0 is the unset fee; with
  no client there is no default to take.
\<close>

definition initFee :: "Client option \<Rightarrow> TransferTransaction \<Rightarrow> TransferTransaction" where
  "initFee client transaction =
     (case client of
        None \<Rightarrow> transaction
      | Some c \<Rightarrow>
          if TransactionFee (pbBody transaction) = 0
          then Transaction_SetMaxTransactionFee (maxTransactionFee c) transaction
          else transaction)"

text \<open>
  Modelled from the spec: \<^verbatim>\<open>initTransactionID\<close>, "if unset, computes [...] a fresh
  TransactionID from the context's payer account and current time". Without a client,
  or without an operator in it, there is no payer account and the call returns the
  error that \<^verbatim>\<open>FreezeWith\<close> passes on.
\<close>

definition initTransactionID :: "Client option \<Rightarrow> TransferTransaction \<Rightarrow> TransferTransaction outcome" where
  "initTransactionID client transaction =
     (case TransactionBody_TransactionID (pbBody transaction) of
        Some transactionID \<Rightarrow> (None, transaction)
      | None \<Rightarrow>
          (case client of
             None \<Rightarrow> (Some errNoTransactionID, transaction)
           | Some c \<Rightarrow>
               (case operator c of
                  None \<Rightarrow> (Some errNoTransactionID, transaction)
                | Some op \<Rightarrow>
                    (None, Transaction_SetTransactionID (TransactionIDGenerate (now c) (Operator_accountID op))
                             (transaction\<lparr>id' := TransactionIDGenerate (now c) (Operator_accountID op)\<rparr>)))))"

text \<open>
  Modelled from the spec: \<^verbatim>\<open>protobuf.Marshal\<close> of the body for one candidate node, "one
  wire body per candidate node (each differing only in its embedded node-account
  field)". It follows the \<^verbatim>\<open>Data\<close> pointer to the \<open>pb\<close> of the transaction.
\<close>

definition marshalBody :: "TransferTransaction \<Rightarrow> AccountID \<Rightarrow> BodyBytes" where
  "marshalBody transaction nodeAccountID =
     Marshal ((pbBody transaction)\<lparr>NodeAccountID := Some nodeAccountID\<rparr>)
       (case Data (pbBody transaction) of
          Data_nil \<Rightarrow> None
        | TransactionBody_CryptoTransfer \<Rightarrow> Some (pb transaction))"

text \<open>
  Modelled from the spec: the per-node step of \<^verbatim>\<open>transaction_freezeWith\<close>, "serializes
  one wire body per candidate node", with "one body + one signature map per candidate
  node"; the transaction is frozen from then on.
\<close>

definition serializePerNode :: "TransferTransaction \<Rightarrow> TransferTransaction" where
  "serializePerNode transaction =
     transaction
       \<lparr>transactions := map (\<lambda>n. \<lparr>BodyBytes = marshalBody transaction n\<rparr>) (nodeIDs transaction),
        signatures := map (\<lambda>n. \<lparr>SigPair = []\<rparr>) (nodeIDs transaction),
        frozen := True\<rparr>"

text \<open>
  Modelled from the spec: \<^verbatim>\<open>transaction_freezeWith\<close>, "resolves the candidate node
  list (explicit override or a sample of the context's healthy nodes)" and serializes.
  An empty node list is the unset one; without a client there is nothing to sample
  and the call returns the error that \<^verbatim>\<open>FreezeWith\<close> passes on.
\<close>

definition transaction_freezeWith :: "Client option \<Rightarrow> TransferTransaction \<Rightarrow> TransferTransaction outcome" where
  "transaction_freezeWith client transaction =
     (if nodeIDs transaction = []
      then (case client of
              None \<Rightarrow> (Some errNoNodeID, transaction)
            | Some c \<Rightarrow> (None, serializePerNode (transaction\<lparr>nodeIDs := network c\<rparr>)))
      else (None, serializePerNode transaction))"

text \<open>
  Modelled from the spec: \<^verbatim>\<open>keyAlreadySigned\<close>, "if that public key already signed":
  some signature map holds an entry keyed by the bytes of the key.
\<close>

definition keyAlreadySigned :: "PublicKey \<Rightarrow> TransferTransaction \<Rightarrow> bool" where
  "keyAlreadySigned pk transaction =
     list_ex (\<lambda>sigMap. list_ex (\<lambda>pair. PubKeyPrefix pair = keyData pk) (SigPair sigMap))
       (signatures transaction)"

text \<open>
  Modelled from the spec: \<^verbatim>\<open>toSignaturePairProtobuf\<close>, "signature entries are keyed by
  public-key bytes, each carrying [...] raw signature bytes".
\<close>

definition toSignaturePairProtobuf :: "PublicKey \<Rightarrow> bytes \<Rightarrow> SignaturePair" where
  "toSignaturePairProtobuf pk signature = \<lparr>PubKeyPrefix = keyData pk, Signature = signature\<rparr>"

text \<open>
  Modelled from the spec: \<^verbatim>\<open>Client.GetOperatorAccountID\<close>, the account of the "operator
  identity"; a client without an operator answers the zero account.
\<close>

definition GetOperatorAccountID :: "Client \<Rightarrow> AccountID" where
  "GetOperatorAccountID client =
     (case operator client of None \<Rightarrow> zeroAccountID | Some op \<Rightarrow> Operator_accountID op)"

text \<open>
  Modelled from the spec: \<^verbatim>\<open>Client.GetOperatorPublicKey\<close>, the key of the "operator
  identity"; a client without an operator answers the empty key.
\<close>

definition GetOperatorPublicKey :: "Client \<Rightarrow> PublicKey" where
  "GetOperatorPublicKey client =
     (case operator client of None \<Rightarrow> \<lparr>keyData = []\<rparr> | Some op \<Rightarrow> Operator_publicKey op)"

text \<open>
  Modelled from the spec: \<^verbatim>\<open>AccountID.isZero\<close>, the test for the zero value of an
  \<open>EntityID\<close> (shard, realm and num 0).
\<close>

definition isZero :: "AccountID \<Rightarrow> bool" where
  "isZero a = (AccountID_Shard a = 0 \<and> AccountID_Realm a = 0 \<and> Account a = 0)"

text \<open>
  Modelled from the spec: \<^verbatim>\<open>AccountID.equals\<close>, the identity equality of \<open>EntityID\<close>:
  the same shard, realm and num.
\<close>

definition equals :: "AccountID \<Rightarrow> AccountID \<Rightarrow> bool" where
  "equals a b =
     (AccountID_Shard a = AccountID_Shard b \<and> AccountID_Realm a = AccountID_Realm b
      \<and> Account a = Account b)"

text \<open>
  Modelled from the spec: \<^verbatim>\<open>tokenTransferFromProtobuf\<close>, the entry of a token
  transfer list as the SDK's \<^verbatim>\<open>TokenTransfer\<close>.
\<close>

definition tokenTransferFromProtobuf :: "AccountAmount \<Rightarrow> TokenTransfer" where
  "tokenTransferFromProtobuf accountAmount =
     \<lparr>TokenTransfer_AccountID = AccountAmount_AccountID accountAmount,
      TokenTransfer_Amount = Amount accountAmount\<rparr>"

text \<open>
  Modelled from the spec: \<^verbatim>\<open>PrivateKey\<close>, by the two capabilities \<^verbatim>\<open>Sign\<close> uses:
  the public key derivable from it and its signing function.
\<close>

record PrivateKey =
  PrivateKey_PublicKey :: PublicKey
  PrivateKey_Sign :: TransactionSigner

text \<open>
  Modelled from the spec: \<^verbatim>\<open>newTransaction\<close>, the mutable state of section 4.4:
  nothing set, not frozen, no node and no per-node entry.
\<close>

definition newTransaction :: Transaction where
  "newTransaction =
     \<lparr>pbBody = newTransactionBody, id' = zeroTransactionID, transactions = [],
      signatures = [], nodeIDs = [], frozen = False\<rparr>"

section \<open>transfer_transaction.go\<close>

definition NewTransferTransaction :: TransferTransaction where
  "NewTransferTransaction =
     Transaction.extend newTransaction
       (TransferTransaction.fields
          \<lparr>Transfers = \<lparr>AccountAmounts = []\<rparr>, TokenTransfers = []\<rparr>
          Map.empty)"

text \<open>
  \<^verbatim>\<open>GetTokenTransfers\<close>: the inner loop appends every entry of one token transfer
  list to the slice the result map holds for the list's token (a missing key reads as
  the nil slice); the outer loop runs over the lists of the body.
\<close>

fun appendAccountAmounts ::
  "TokenID \<Rightarrow> AccountAmount list \<Rightarrow> (TokenID \<rightharpoonup> TokenTransfer list) \<Rightarrow> (TokenID \<rightharpoonup> TokenTransfer list)"
where
  "appendAccountAmounts token [] tokenTransferMap = tokenTransferMap"
| "appendAccountAmounts token (accountAmount # rest) tokenTransferMap =
     appendAccountAmounts token rest
       (tokenTransferMap(token \<mapsto>
          (case tokenTransferMap token of None \<Rightarrow> [] | Some entries \<Rightarrow> entries)
            @ [tokenTransferFromProtobuf accountAmount]))"

fun collectTokenTransfers ::
  "TokenTransferList list \<Rightarrow> (TokenID \<rightharpoonup> TokenTransfer list) \<Rightarrow> (TokenID \<rightharpoonup> TokenTransfer list)"
where
  "collectTokenTransfers [] tokenTransferMap = tokenTransferMap"
| "collectTokenTransfers (tokenTransfer # rest) tokenTransferMap =
     collectTokenTransfers rest
       (appendAccountAmounts (Token tokenTransfer) (TokenTransferList_Transfers tokenTransfer)
          tokenTransferMap)"

definition GetTokenTransfers :: "TransferTransaction \<Rightarrow> (TokenID \<rightharpoonup> TokenTransfer list)" where
  "GetTokenTransfers transaction =
     collectTokenTransfers (TokenTransfers (pb transaction)) Map.empty"

definition AddHbarTransfer :: "AccountID \<Rightarrow> Hbar \<Rightarrow> TransferTransaction \<Rightarrow> TransferTransaction outcome" where
  "AddHbarTransfer accountID amount transaction =
     (case requireNotFrozen transaction of
        Some e \<Rightarrow> (Some e, transaction)
      | None \<Rightarrow>
          (None, transaction
             \<lparr>pb := (pb transaction)
                \<lparr>Transfers := (Transfers (pb transaction))
                   \<lparr>AccountAmounts := AccountAmounts (Transfers (pb transaction))
                      @ [\<lparr>AccountAmount_AccountID = accountID, Amount = tinybar amount\<rparr>]\<rparr>\<rparr>\<rparr>))"

text \<open>
  \<^verbatim>\<open>AddTokenTransfer\<close>. \<^verbatim>\<open>transaction.pb.TokenTransfers[index]\<close> panics when the
  index read from \<open>tokenIndexes\<close> is past the end of the slice.
\<close>

definition AddTokenTransfer ::
  "TokenID \<Rightarrow> AccountID \<Rightarrow> 64 word \<Rightarrow> TransferTransaction \<Rightarrow> TransferTransaction outcome"
where
  "AddTokenTransfer tokenID accountID value transaction =
     (case requireNotFrozen transaction of
        Some e \<Rightarrow> (Some e, transaction)
      | None \<Rightarrow>
          (let accountAmount = \<lparr>AccountAmount_AccountID = accountID, Amount = value\<rparr> in
           case tokenIndexes transaction tokenID of
             Some index \<Rightarrow>
               if index < length (TokenTransfers (pb transaction))
               then (None, transaction
                       \<lparr>pb := (pb transaction)
                          \<lparr>TokenTransfers := (TokenTransfers (pb transaction))
                             [index := (TokenTransfers (pb transaction) ! index)
                                \<lparr>TokenTransferList_Transfers :=
                                   TokenTransferList_Transfers (TokenTransfers (pb transaction) ! index)
                                     @ [accountAmount]\<rparr>]\<rparr>\<rparr>)
               else (Some IndexOutOfRange, transaction)
           | None \<Rightarrow>
               (None, transaction
                  \<lparr>tokenIndexes := (tokenIndexes transaction)
                     (tokenID \<mapsto> length (TokenTransfers (pb transaction))),
                   pb := (pb transaction)
                     \<lparr>TokenTransfers := TokenTransfers (pb transaction)
                        @ [\<lparr>Token = tokenID, TokenTransferList_Transfers = [accountAmount]\<rparr>]\<rparr>\<rparr>)))"

definition IsFrozen :: "TransferTransaction \<Rightarrow> bool" where
  "IsFrozen transaction = isFrozen transaction"

text \<open>
  \<^verbatim>\<open>onFreeze\<close> stores the pointer to \<open>pb\<close> in the body and returns true.
\<close>

definition onFreeze :: "TransferTransaction \<Rightarrow> bool \<times> TransferTransaction" where
  "onFreeze transaction =
     (True, transaction\<lparr>pbBody := (pbBody transaction)\<lparr>Data := TransactionBody_CryptoTransfer\<rparr>\<rparr>)"

text \<open>
  \<^verbatim>\<open>FreezeWith\<close>: \<^verbatim>\<open>initFee\<close>, then \<^verbatim>\<open>initTransactionID\<close> (its error is returned),
  then \<^verbatim>\<open>onFreeze\<close>, then \<^verbatim>\<open>transaction_freezeWith\<close>, whose error is the result. The
  function does not test whether the transaction is frozen already.
\<close>

definition FreezeWith :: "Client option \<Rightarrow> TransferTransaction \<Rightarrow> TransferTransaction outcome" where
  "FreezeWith client transaction =
     (let t1 = initFee client transaction in
      case initTransactionID client t1 of
        (Some err, t2) \<Rightarrow> (Some err, t2)
      | (None, t2) \<Rightarrow>
          (case onFreeze t2 of
             (False, t3) \<Rightarrow> (None, t3)
           | (True, t3) \<Rightarrow> transaction_freezeWith client t3))"

definition Freeze :: "TransferTransaction \<Rightarrow> TransferTransaction outcome" where
  "Freeze transaction = FreezeWith None transaction"

text \<open>
  The loop of \<^verbatim>\<open>SignWith\<close>, from \<open>index\<close> on. \<^verbatim>\<open>transaction.signatures[index]\<close>
  panics when there are fewer signature maps than bodies.
\<close>

function signLoop ::
  "PublicKey \<Rightarrow> TransactionSigner \<Rightarrow> nat \<Rightarrow> TransferTransaction \<Rightarrow> TransferTransaction outcome"
where
  "signLoop publicKey sign index transaction =
     (if index < length (transactions transaction)
      then (let signature = sign (BodyBytes (transactions transaction ! index)) in
            if index < length (signatures transaction)
            then signLoop publicKey sign (Suc index)
                   (transaction
                      \<lparr>signatures := (signatures transaction)
                         [index := (signatures transaction ! index)
                            \<lparr>SigPair := SigPair (signatures transaction ! index)
                               @ [toSignaturePairProtobuf publicKey signature]\<rparr>]\<rparr>)
            else (Some IndexOutOfRange, transaction))
      else (None, transaction))"
  by pat_completeness auto
termination
  by (relation "measure (\<lambda>(publicKey, sign, index, transaction).
        length (transactions transaction) - index)") auto

declare signLoop.simps [simp del]

text \<open>
  \<^verbatim>\<open>SignWith\<close>: freezes an unfrozen transaction with \<^verbatim>\<open>Freeze()\<close>, whose error
  result the source drops; returns at once when the key signed already; else runs
  the loop.
\<close>

definition SignWith ::
  "PublicKey \<Rightarrow> TransactionSigner \<Rightarrow> TransferTransaction \<Rightarrow> TransferTransaction outcome"
where
  "SignWith publicKey sign transaction =
     (let t1 = (if \<not> IsFrozen transaction then snd (Freeze transaction) else transaction) in
      if keyAlreadySigned publicKey t1 then (None, t1)
      else signLoop publicKey sign 0 t1)"

definition Sign :: "PrivateKey \<Rightarrow> TransferTransaction \<Rightarrow> TransferTransaction outcome" where
  "Sign privateKey transaction =
     SignWith (PrivateKey_PublicKey privateKey) (PrivateKey_Sign privateKey) transaction"

definition SignWithOperator :: "Client option \<Rightarrow> TransferTransaction \<Rightarrow> TransferTransaction outcome" where
  "SignWithOperator client transaction =
     (case client of
        None \<Rightarrow> (Some NilPointerDereference, transaction)
      | Some c \<Rightarrow>
          (case operator c of
             None \<Rightarrow> (Some errClientOperatorSigning, transaction)
           | Some op \<Rightarrow>
               (let t1 = (if \<not> IsFrozen transaction then snd (FreezeWith client transaction)
                          else transaction)
                in SignWith (Operator_publicKey op) (Operator_signer op) t1)))"

text \<open>
  \<^verbatim>\<open>Execute\<close> up to its call of \<^verbatim>\<open>execute\<close>: the transaction as it is handed to the
  execution engine. The error result of \<^verbatim>\<open>FreezeWith\<close> is dropped by the source.
  \<^verbatim>\<open>client.operator.signer\<close> is read through the operator pointer.
\<close>

definition Execute_beforeDispatch ::
  "Client option \<Rightarrow> TransferTransaction \<Rightarrow> TransferTransaction outcome"
where
  "Execute_beforeDispatch client transaction =
     (let t1 = (if \<not> IsFrozen transaction then snd (FreezeWith client transaction)
                else transaction);
          transactionID = id' t1
      in case client of
           None \<Rightarrow> (Some NilPointerDereference, t1)
         | Some c \<Rightarrow>
             if \<not> isZero (GetOperatorAccountID c)
                \<and> equals (GetOperatorAccountID c) (TransactionID_AccountID transactionID)
             then (case operator c of
                     None \<Rightarrow> (Some NilPointerDereference, t1)
                   | Some op \<Rightarrow> SignWith (GetOperatorPublicKey c) (Operator_signer op) t1)
             else (None, t1))"

record TransactionResponse =
  TransactionResponse_TransactionID :: TransactionID
  NodeID :: AccountID

text \<open>
  \<^verbatim>\<open>Execute\<close>. The execution engine \<^verbatim>\<open>execute\<close> is not part of this file; it is the
  parameter \<open>engine\<close>, which answers the node that accepted the transaction or an
  error.
\<close>

definition Execute ::
  "(Client \<Rightarrow> TransferTransaction \<Rightarrow> error + AccountID) \<Rightarrow> Client option \<Rightarrow> TransferTransaction
     \<Rightarrow> (error + TransactionResponse) \<times> TransferTransaction"
where
  "Execute engine client transaction =
     (case Execute_beforeDispatch client transaction of
        (Some e, t2) \<Rightarrow> (Inl e, t2)
      | (None, t2) \<Rightarrow>
          (case client of
             None \<Rightarrow> (Inl NilPointerDereference, t2)
           | Some c \<Rightarrow>
               (case engine c t2 of
                  Inl err \<Rightarrow> (Inl err, t2)
                | Inr nodeID \<Rightarrow>
                    (Inr \<lparr>TransactionResponse_TransactionID = id' t2, NodeID = nodeID\<rparr>, t2))))"

definition GetMaxTransactionFee :: "TransferTransaction \<Rightarrow> Hbar" where
  "GetMaxTransactionFee transaction = \<lparr>tinybar = TransactionFee (pbBody transaction)\<rparr>"

definition SetMaxTransactionFee :: "Hbar \<Rightarrow> TransferTransaction \<Rightarrow> TransferTransaction outcome" where
  "SetMaxTransactionFee fee transaction =
     (case requireNotFrozen transaction of
        Some e \<Rightarrow> (Some e, transaction)
      | None \<Rightarrow> (None, Transaction_SetMaxTransactionFee fee transaction))"

definition GetTransactionMemo :: "TransferTransaction \<Rightarrow> string" where
  "GetTransactionMemo transaction = Memo (pbBody transaction)"

definition SetTransactionMemo :: "string \<Rightarrow> TransferTransaction \<Rightarrow> TransferTransaction outcome" where
  "SetTransactionMemo memo transaction =
     (case requireNotFrozen transaction of
        Some e \<Rightarrow> (Some e, transaction)
      | None \<Rightarrow> (None, Transaction_SetTransactionMemo memo transaction))"

definition GetTransactionValidDuration :: "TransferTransaction \<Rightarrow> 64 word" where
  "GetTransactionValidDuration transaction = TransactionValidDuration (pbBody transaction)"

definition SetTransactionValidDuration :: "64 word \<Rightarrow> TransferTransaction \<Rightarrow> TransferTransaction outcome" where
  "SetTransactionValidDuration duration transaction =
     (case requireNotFrozen transaction of
        Some e \<Rightarrow> (Some e, transaction)
      | None \<Rightarrow> (None, Transaction_SetTransactionValidDuration duration transaction))"

definition GetTransactionID :: "TransferTransaction \<Rightarrow> TransactionID" where
  "GetTransactionID transaction = Transaction_GetTransactionID transaction"

text \<open>\<^verbatim>\<open>SetTransactionID\<close> writes \<open>id\<close> and then calls the embedded setter.\<close>

definition SetTransactionID :: "TransactionID \<Rightarrow> TransferTransaction \<Rightarrow> TransferTransaction outcome" where
  "SetTransactionID transactionID transaction =
     (case requireNotFrozen transaction of
        Some e \<Rightarrow> (Some e, transaction)
      | None \<Rightarrow>
          (None, Transaction_SetTransactionID transactionID (transaction\<lparr>id' := transactionID\<rparr>)))"

definition GetNodeAccountIDs :: "TransferTransaction \<Rightarrow> AccountID list" where
  "GetNodeAccountIDs transaction = Transaction_GetNodeAccountIDs transaction"

definition SetNodeAccountIDs :: "AccountID list \<Rightarrow> TransferTransaction \<Rightarrow> TransferTransaction outcome" where
  "SetNodeAccountIDs nodeID transaction =
     (case requireNotFrozen transaction of
        Some e \<Rightarrow> (Some e, transaction)
      | None \<Rightarrow> (None, Transaction_SetNodeAccountIDs nodeID transaction))"

section \<open>Call sequences, invariants and example values\<close>

text \<open>
  A sequence of \<^verbatim>\<open>AddTokenTransfer\<close> calls on one transaction, stopping at the first
  panic; \<open>transfersFor k calls\<close> are the transfers the calls for token \<open>k\<close> ask for,
  in call order.
\<close>

fun addTokenTransfers ::
  "(TokenID \<times> AccountID \<times> 64 word) list \<Rightarrow> TransferTransaction \<Rightarrow> TransferTransaction outcome"
where
  "addTokenTransfers [] transaction = (None, transaction)"
| "addTokenTransfers ((tokenID, accountID, amount) # calls) transaction =
     (case AddTokenTransfer tokenID accountID amount transaction of
        (Some e, t') \<Rightarrow> (Some e, t')
      | (None, t') \<Rightarrow> addTokenTransfers calls t')"

definition transfersFor :: "TokenID \<Rightarrow> (TokenID \<times> AccountID \<times> 64 word) list \<Rightarrow> TokenTransfer list" where
  "transfersFor k calls =
     map (\<lambda>(tokenID, accountID, amount).
            \<lparr>TokenTransfer_AccountID = accountID, TokenTransfer_Amount = amount\<rparr>)
       (filter (\<lambda>(tokenID, accountID, amount). tokenID = k) calls)"

text \<open>Concrete values for the evaluated instances below.\<close>

definition exampleAccount :: "nat \<Rightarrow> AccountID" where
  "exampleAccount n = \<lparr>AccountID_Shard = 0, AccountID_Realm = 0, Account = of_nat n\<rparr>"

definition exampleToken :: "nat \<Rightarrow> TokenID" where
  "exampleToken n = \<lparr>TokenID_Shard = 0, TokenID_Realm = 0, TokenID_Token = of_nat n\<rparr>"

definition exampleCalls :: "(TokenID \<times> AccountID \<times> 64 word) list" where
  "exampleCalls = [(exampleToken 5, exampleAccount 10, 7), (exampleToken 6, exampleAccount 11, 1), (exampleToken 5, exampleAccount 12, - 7)]"

text \<open>
  \<open>tokenEntries tls k\<close>: the entries of all lists of \<open>tls\<close> whose token is \<open>k\<close>, in
  order. \<open>tokenIndexes_inv\<close>: every token heads at most one list of the body, and
  \<open>tokenIndexes\<close> maps exactly the tokens of the body, each to the index of its list.
\<close>

definition tokenEntries :: "TokenTransferList list \<Rightarrow> TokenID \<Rightarrow> TokenTransfer list" where
  "tokenEntries tls k =
     concat (map (\<lambda>l. map tokenTransferFromProtobuf (TokenTransferList_Transfers l))
       (filter (\<lambda>l. Token l = k) tls))"

definition tokenIndexes_inv :: "TransferTransaction \<Rightarrow> bool" where
  "tokenIndexes_inv t =
     (distinct (map Token (TokenTransfers (pb t)))
      \<and> (\<forall>k i. tokenIndexes t k = Some i
            \<longleftrightarrow> (i < length (TokenTransfers (pb t)) \<and> Token (TokenTransfers (pb t) ! i) = k)))"


definition exampleTransactionID :: TransactionID where
  "exampleTransactionID = \<lparr>TransactionID_AccountID = exampleAccount 2, ValidStart = 1000\<rparr>"

text \<open>
  \<open>exampleNoNodes\<close>: a new transaction with its TransactionID set; \<open>exampleMutable\<close>:
  with two candidate nodes as well; \<open>exampleFrozen\<close>: the latter after \<^verbatim>\<open>Freeze()\<close>.
\<close>

definition exampleNoNodes :: TransferTransaction where
  "exampleNoNodes = snd (SetTransactionID exampleTransactionID NewTransferTransaction)"

definition exampleMutable :: TransferTransaction where
  "exampleMutable =
     snd (SetNodeAccountIDs [exampleAccount 3, exampleAccount 4]
       (snd (SetTransactionID exampleTransactionID NewTransferTransaction)))"

definition exampleFrozen :: TransferTransaction where
  "exampleFrozen = snd (Freeze exampleMutable)"

definition exampleKey :: PublicKey where
  "exampleKey = \<lparr>keyData = [1, 2, 3]\<rparr>"

definition exampleSigner :: TransactionSigner where
  "exampleSigner = (\<lambda>bodyBytes. [7, 7])"

definition exampleOperator :: Operator where
  "exampleOperator =
     \<lparr>Operator_accountID = exampleAccount 2, Operator_publicKey = exampleKey,
      Operator_signer = exampleSigner\<rparr>"

definition exampleClient :: Client where
  "exampleClient =
     \<lparr>operator = Some exampleOperator, maxTransactionFee = \<lparr>tinybar = 100\<rparr>,
      network = [exampleAccount 3, exampleAccount 4], now = 1000\<rparr>"

definition exampleClientNoOperator :: Client where
  "exampleClientNoOperator = exampleClient\<lparr>operator := None\<rparr>"

text \<open>
  \<open>signEach\<close>: every signature map with the pair of the key and its signature of the
  body at the same index appended; what the loop of \<^verbatim>\<open>SignWith\<close> computes when there
  is one signature map per body.
\<close>

definition signEach :: "PublicKey \<Rightarrow> TransactionSigner \<Rightarrow> TransferTransaction \<Rightarrow> SignatureMap list" where
  "signEach publicKey sign transaction =
     map (\<lambda>(tx, sigMap).
            sigMap\<lparr>SigPair := SigPair sigMap
              @ [toSignaturePairProtobuf publicKey (sign (BodyBytes tx))]\<rparr>)
       (zip (transactions transaction) (signatures transaction))"

text \<open>
  \<open>signedKeys\<close>: the keys of the entries of a signature map, in order;
  \<open>entriesOf pk\<close>: its entries for the key \<open>pk\<close>. \<open>signatures_inv\<close>: one signature
  map per body, no map with two entries for a key, and the same keys in every map.
\<close>

definition signedKeys :: "SignatureMap \<Rightarrow> bytes list" where
  "signedKeys sigMap = map PubKeyPrefix (SigPair sigMap)"

definition signatures_inv :: "TransferTransaction \<Rightarrow> bool" where
  "signatures_inv t =
     (length (signatures t) = length (transactions t)
      \<and> (\<forall>m \<in> set (signatures t). distinct (signedKeys m))
      \<and> (\<forall>m \<in> set (signatures t). \<forall>m' \<in> set (signatures t).
            set (signedKeys m) = set (signedKeys m')))"

definition entriesOf :: "PublicKey \<Rightarrow> SignatureMap \<Rightarrow> SignaturePair list" where
  "entriesOf pk sigMap = filter (\<lambda>pair. PubKeyPrefix pair = keyData pk) (SigPair sigMap)"

text \<open>\<open>exampleSigned\<close>: the frozen example after one \<^verbatim>\<open>SignWith\<close>.\<close>

definition exampleSigned :: TransferTransaction where
  "exampleSigned = snd (SignWith exampleKey exampleSigner exampleFrozen)"

text \<open>
  A client whose operator has the zero account, and a frozen transaction paid by the
  zero account.
\<close>

definition exampleZeroOperatorClient :: Client where
  "exampleZeroOperatorClient =
     exampleClient\<lparr>operator := Some (exampleOperator\<lparr>Operator_accountID := zeroAccountID\<rparr>)\<rparr>"

definition exampleZeroPayerFrozen :: TransferTransaction where
  "exampleZeroPayerFrozen =
     snd (Freeze (snd (SetNodeAccountIDs [exampleAccount 3, exampleAccount 4]
       (snd (SetTransactionID \<lparr>TransactionID_AccountID = zeroAccountID, ValidStart = 1000\<rparr>
          NewTransferTransaction)))))"

text \<open>
  The transactions a caller can get by the functions of \<^verbatim>\<open>transfer_transaction.go\<close>,
  from \<^verbatim>\<open>NewTransferTransaction\<close> on. A call that fails leaves a transaction behind as
  well, and that one is reachable too.
\<close>

inductive reachable :: "TransferTransaction \<Rightarrow> bool" where
  reachable_new: "reachable NewTransferTransaction"
| reachable_AddHbarTransfer:
    "reachable t \<Longrightarrow> reachable (snd (AddHbarTransfer accountID amount t))"
| reachable_AddTokenTransfer:
    "reachable t \<Longrightarrow> reachable (snd (AddTokenTransfer tokenID accountID v t))"
| reachable_SetMaxTransactionFee:
    "reachable t \<Longrightarrow> reachable (snd (SetMaxTransactionFee fee t))"
| reachable_SetTransactionMemo:
    "reachable t \<Longrightarrow> reachable (snd (SetTransactionMemo memo t))"
| reachable_SetTransactionValidDuration:
    "reachable t \<Longrightarrow> reachable (snd (SetTransactionValidDuration duration t))"
| reachable_SetTransactionID:
    "reachable t \<Longrightarrow> reachable (snd (SetTransactionID transactionID t))"
| reachable_SetNodeAccountIDs:
    "reachable t \<Longrightarrow> reachable (snd (SetNodeAccountIDs nodeID t))"
| reachable_FreezeWith:
    "reachable t \<Longrightarrow> reachable (snd (FreezeWith client t))"
| reachable_SignWith:
    "reachable t \<Longrightarrow> reachable (snd (SignWith publicKey sign t))"
| reachable_SignWithOperator:
    "reachable t \<Longrightarrow> reachable (snd (SignWithOperator client t))"
| reachable_Execute:
    "reachable t \<Longrightarrow> reachable (snd (Execute_beforeDispatch client t))"

text \<open>\<open>preSign\<close>: the first statement of \<^verbatim>\<open>SignWith\<close>, the freeze of a transaction
  that is not frozen, with the error result dropped.\<close>

definition preSign :: "TransferTransaction \<Rightarrow> TransferTransaction" where
  "preSign t = (if \<not> IsFrozen t then snd (Freeze t) else t)"

text \<open>\<open>frozen_has_id\<close>: a frozen transaction has its TransactionID set.\<close>

definition frozen_has_id :: "TransferTransaction \<Rightarrow> bool" where
  "frozen_has_id t = (frozen t \<longrightarrow> TransactionBody_TransactionID (pbBody t) \<noteq> None)"

text \<open>
  \<open>per_node_inv\<close>: a frozen transaction has one serialized body per candidate node; a
  transaction that is not frozen has no serialized body and no signature map.
\<close>

definition per_node_inv :: "TransferTransaction \<Rightarrow> bool" where
  "per_node_inv t =
     (if frozen t then length (transactions t) = length (nodeIDs t)
      else transactions t = [] \<and> signatures t = [])"

text \<open>\<open>exampleNoID\<close>: a new transaction with two candidate nodes and no TransactionID.\<close>

definition exampleNoID :: TransferTransaction where
  "exampleNoID =
     snd (SetNodeAccountIDs [exampleAccount 3, exampleAccount 4] NewTransferTransaction)"

section \<open>Properties of network_name.go\<close>

text \<open>
  C9. \<^verbatim>\<open>NetworkName.Network()\<close> returns "0" for mainnet, "1" for testnet and "2" for
  previewnet, and panics for every other value of the open string type
  \<^verbatim>\<open>NetworkName\<close>; so it returns exactly on the three named networks.
\<close>

theorem Network_total_only_on_named:
  "Network NetworkNameMainnet = Inr ''0''
   \<and> Network NetworkNameTestnet = Inr ''1''
   \<and> Network NetworkNamePreviewnet = Inr ''2''
   \<and> (\<forall>n. n \<noteq> NetworkNameMainnet \<and> n \<noteq> NetworkNameTestnet \<and> n \<noteq> NetworkNamePreviewnet
          \<longrightarrow> (\<exists>msg. Network n = Inl (NetworkNameUnreachable msg)))
   \<and> (\<forall>n s. Network n = Inr s
          \<longrightarrow> n = NetworkNameMainnet \<or> n = NetworkNameTestnet \<or> n = NetworkNamePreviewnet)"
  by (simp add: Network_def NetworkNameMainnet_def NetworkNameTestnet_def
      NetworkNamePreviewnet_def)

theorem Network_total_only_on_named_witness:
  "Network ''devnet'' = Inl (NetworkNameUnreachable
     ''unreacahble: NetworkName.Network() switch statement is non-exhaustive. NetworkName: devnet'')
   \<and> Network ''testnet'' = Inr ''1''"
proof -
  have other: "''devnet'' \<noteq> NetworkNameMainnet \<and> ''devnet'' \<noteq> NetworkNameTestnet
      \<and> ''devnet'' \<noteq> NetworkNamePreviewnet"
    by (simp add: NetworkNameMainnet_def NetworkNameTestnet_def NetworkNamePreviewnet_def)
  from Network_total_only_on_named other
  obtain msg where "Network ''devnet'' = Inl (NetworkNameUnreachable msg)"
    by blast
  moreover have "Network NetworkNameTestnet = Inr ''1''"
    using Network_total_only_on_named by blast
  ultimately show ?thesis
    by (simp add: Network_def NetworkNameMainnet_def NetworkNameTestnet_def
        NetworkNamePreviewnet_def)
qed


section \<open>Token transfers: one list per token\<close>

lemma appendAccountAmounts_apply:
  "appendAccountAmounts token aas m k =
     (if k = token \<and> aas \<noteq> []
      then Some ((case m k of None \<Rightarrow> [] | Some entries \<Rightarrow> entries) @ map tokenTransferFromProtobuf aas)
      else m k)"
  by (induction aas arbitrary: m) auto

lemma collectTokenTransfers_apply:
  "collectTokenTransfers tls m k =
     (if tokenEntries tls k = [] then m k
      else Some ((case m k of None \<Rightarrow> [] | Some entries \<Rightarrow> entries) @ tokenEntries tls k))"
  by (induction tls arbitrary: m) (auto simp: tokenEntries_def appendAccountAmounts_apply)

lemma GetTokenTransfers_entries:
  "GetTokenTransfers t k =
     (if tokenEntries (TokenTransfers (pb t)) k = [] then None
      else Some (tokenEntries (TokenTransfers (pb t)) k))"
  by (simp add: GetTokenTransfers_def collectTokenTransfers_apply)

lemma filter_absent_token:
  "k \<notin> Token ` set tls \<Longrightarrow> filter (\<lambda>l. Token l = k) tls = []"
  by (induction tls) auto

lemma tokenEntries_update:
  "i < length tls \<Longrightarrow> Token x = Token (tls ! i) \<Longrightarrow> distinct (map Token tls) \<Longrightarrow>
   tokenEntries (tls[i := x]) k =
     (if k = Token x then map tokenTransferFromProtobuf (TokenTransferList_Transfers x)
      else tokenEntries tls k)"
proof (induction tls arbitrary: i)
  case Nil
  then show ?case by simp
next
  case (Cons l tls)
  show ?case
  proof (cases i)
    case 0
    with Cons.prems show ?thesis
      by (auto simp: tokenEntries_def filter_absent_token)
  next
    case (Suc j)
    with Cons.prems have "Token l \<noteq> Token x"
      by auto
    with Suc Cons show ?thesis
      by (auto simp: tokenEntries_def)
  qed
qed

lemma tokenEntries_nth:
  "i < length tls \<Longrightarrow> distinct (map Token tls) \<Longrightarrow>
   tokenEntries tls (Token (tls ! i)) =
     map tokenTransferFromProtobuf (TokenTransferList_Transfers (tls ! i))"
  using tokenEntries_update [of i tls "tls ! i" "Token (tls ! i)"] by simp

lemma map_Token_update:
  "i < length tls \<Longrightarrow> Token x = Token (tls ! i) \<Longrightarrow> map Token (tls[i := x]) = map Token tls"
  by (simp add: map_update list_update_same_conv)

lemma AddTokenTransfer_step:
  assumes "\<not> IsFrozen t" and "tokenIndexes_inv t"
  shows "\<exists>t'. AddTokenTransfer k a v t = (None, t') \<and> \<not> IsFrozen t' \<and> tokenIndexes_inv t'
           \<and> (\<forall>k'. tokenEntries (TokenTransfers (pb t')) k' =
                (if k' = k
                 then tokenEntries (TokenTransfers (pb t)) k'
                        @ [\<lparr>TokenTransfer_AccountID = a, TokenTransfer_Amount = v\<rparr>]
                 else tokenEntries (TokenTransfers (pb t)) k'))"
proof (cases "tokenIndexes t k")
  case None
  have absent: "k \<notin> Token ` set (TokenTransfers (pb t))"
  proof
    assume "k \<in> Token ` set (TokenTransfers (pb t))"
    then obtain i where "i < length (TokenTransfers (pb t))" "Token (TokenTransfers (pb t) ! i) = k"
      by (auto simp: in_set_conv_nth)
    with assms(2) have "tokenIndexes t k = Some i"
      by (simp add: tokenIndexes_inv_def)
    with None show False by simp
  qed
  have "tokenIndexes_inv (t\<lparr>tokenIndexes := (tokenIndexes t)(k \<mapsto> length (TokenTransfers (pb t))),
          pb := (pb t)\<lparr>TokenTransfers := TokenTransfers (pb t)
            @ [\<lparr>Token = k, TokenTransferList_Transfers = [\<lparr>AccountAmount_AccountID = a, Amount = v\<rparr>]\<rparr>]\<rparr>\<rparr>)"
    using assms(2) absent
    by (auto simp: tokenIndexes_inv_def nth_append less_Suc_eq)
  with None assms(1) absent show ?thesis
    by (auto simp: AddTokenTransfer_def requireNotFrozen_def IsFrozen_def isFrozen_def
        tokenEntries_def filter_absent_token tokenTransferFromProtobuf_def)
next
  case (Some i)
  with assms(2) have i: "i < length (TokenTransfers (pb t))" "Token (TokenTransfers (pb t) ! i) = k"
    and d: "distinct (map Token (TokenTransfers (pb t)))"
    by (auto simp: tokenIndexes_inv_def)
  let ?x = "(TokenTransfers (pb t) ! i)\<lparr>TokenTransferList_Transfers :=
              TokenTransferList_Transfers (TokenTransfers (pb t) ! i)
                @ [\<lparr>AccountAmount_AccountID = a, Amount = v\<rparr>]\<rparr>"
  have tx: "Token ?x = Token (TokenTransfers (pb t) ! i)" by simp
  have inv': "tokenIndexes_inv (t\<lparr>pb := (pb t)\<lparr>TokenTransfers := (TokenTransfers (pb t))[i := ?x]\<rparr>\<rparr>)"
    using assms(2) i d map_Token_update [OF i(1) tx]
    by (auto simp: tokenIndexes_inv_def nth_list_update)
  have ent: "tokenEntries ((TokenTransfers (pb t))[i := ?x]) k' =
      (if k' = k then tokenEntries (TokenTransfers (pb t)) k'
                        @ [\<lparr>TokenTransfer_AccountID = a, TokenTransfer_Amount = v\<rparr>]
       else tokenEntries (TokenTransfers (pb t)) k')" for k'
    using tokenEntries_update [OF i(1) tx d, of k'] tokenEntries_nth [OF i(1) d] i(2)
    by (auto simp: tokenTransferFromProtobuf_def)
  from Some i assms(1) inv' ent show ?thesis
    by (simp add: AddTokenTransfer_def requireNotFrozen_def IsFrozen_def isFrozen_def)
qed


lemma addTokenTransfers_run:
  "\<not> IsFrozen t0 \<Longrightarrow> tokenIndexes_inv t0 \<Longrightarrow>
   \<exists>t. addTokenTransfers calls t0 = (None, t) \<and> \<not> IsFrozen t \<and> tokenIndexes_inv t
       \<and> (\<forall>k. tokenEntries (TokenTransfers (pb t)) k =
                tokenEntries (TokenTransfers (pb t0)) k @ transfersFor k calls)"
proof (induction calls arbitrary: t0)
  case Nil
  then show ?case by (simp add: transfersFor_def)
next
  case (Cons c calls)
  obtain k a v where c: "c = (k, a, v)" by (cases c)
  from AddTokenTransfer_step [OF Cons.prems, of k a v]
  obtain t1 where t1: "AddTokenTransfer k a v t0 = (None, t1)" "\<not> IsFrozen t1" "tokenIndexes_inv t1"
    and e1: "\<And>k'. tokenEntries (TokenTransfers (pb t1)) k' =
                (if k' = k
                 then tokenEntries (TokenTransfers (pb t0)) k'
                        @ [\<lparr>TokenTransfer_AccountID = a, TokenTransfer_Amount = v\<rparr>]
                 else tokenEntries (TokenTransfers (pb t0)) k')"
    by blast
  from Cons.IH [OF t1(2,3)]
  obtain t where t: "addTokenTransfers calls t1 = (None, t)" "\<not> IsFrozen t" "tokenIndexes_inv t"
    and e: "\<And>k'. tokenEntries (TokenTransfers (pb t)) k' =
                tokenEntries (TokenTransfers (pb t1)) k' @ transfersFor k' calls"
    by blast
  have "tokenEntries (TokenTransfers (pb t)) k' =
          tokenEntries (TokenTransfers (pb t0)) k' @ transfersFor k' (c # calls)" for k'
    by (simp add: e e1 c transfersFor_def)
  with t t1(1) c show ?case by simp
qed

lemma NewTransferTransaction_inv:
  "\<not> IsFrozen NewTransferTransaction \<and> tokenIndexes_inv NewTransferTransaction
   \<and> TokenTransfers (pb NewTransferTransaction) = []"
  by (simp add: NewTransferTransaction_def newTransaction_def IsFrozen_def isFrozen_def
      tokenIndexes_inv_def Transaction.extend_def TransferTransaction.fields_def)

text \<open>
  C10. \<^verbatim>\<open>AddTokenTransfer\<close> preserves the invariant that each token heads at most one
  \<^verbatim>\<open>TokenTransferList\<close> of the body, the list \<open>tokenIndexes\<close> points to. Hence after
  any sequence of calls on a new transaction no call has panicked, the tokens of the
  body's lists are distinct, and \<^verbatim>\<open>GetTokenTransfers\<close> maps every token to exactly the
  transfers of the calls made for it, in call order: \<open>n\<close> calls for a token give \<open>n\<close>
  entries under that token (and no entry for a token never named).
\<close>

theorem AddTokenTransfer_one_list_per_token:
  "(\<forall>t k a v. \<not> IsFrozen t \<and> tokenIndexes_inv t \<longrightarrow>
      (\<exists>t'. AddTokenTransfer k a v t = (None, t') \<and> \<not> IsFrozen t' \<and> tokenIndexes_inv t'))
   \<and> (\<exists>t. addTokenTransfers calls NewTransferTransaction = (None, t)
         \<and> tokenIndexes_inv t
         \<and> distinct (map Token (TokenTransfers (pb t)))
         \<and> (\<forall>k. GetTokenTransfers t k =
                (if transfersFor k calls = [] then None else Some (transfersFor k calls)))
         \<and> (\<forall>k entries. GetTokenTransfers t k = Some entries \<longrightarrow>
                length entries = length (filter (\<lambda>c. fst c = k) calls)))"
proof (intro conjI allI impI)
  fix t k a v
  assume "\<not> IsFrozen t \<and> tokenIndexes_inv t"
  with AddTokenTransfer_step [of t k a v]
  show "\<exists>t'. AddTokenTransfer k a v t = (None, t') \<and> \<not> IsFrozen t' \<and> tokenIndexes_inv t'"
    by blast
next
  from NewTransferTransaction_inv addTokenTransfers_run [of NewTransferTransaction calls]
  obtain t where t: "addTokenTransfers calls NewTransferTransaction = (None, t)"
      "tokenIndexes_inv t"
    and e: "\<And>k. tokenEntries (TokenTransfers (pb t)) k = transfersFor k calls"
    by (auto simp: tokenEntries_def)
  have len: "length (transfersFor k calls) = length (filter (\<lambda>c. fst c = k) calls)" for k
    by (simp add: transfersFor_def case_prod_unfold)
  from t e len show "\<exists>t. addTokenTransfers calls NewTransferTransaction = (None, t)
         \<and> tokenIndexes_inv t
         \<and> distinct (map Token (TokenTransfers (pb t)))
         \<and> (\<forall>k. GetTokenTransfers t k =
                (if transfersFor k calls = [] then None else Some (transfersFor k calls)))
         \<and> (\<forall>k entries. GetTokenTransfers t k = Some entries \<longrightarrow>
                length entries = length (filter (\<lambda>c. fst c = k) calls))"
    by (auto simp: GetTokenTransfers_entries tokenIndexes_inv_def)
qed

theorem AddTokenTransfer_one_list_per_token_witness:
  "\<not> IsFrozen NewTransferTransaction
   \<and> tokenIndexes_inv NewTransferTransaction
   \<and> fst (AddTokenTransfer (exampleToken 5) (exampleAccount 10) 7 NewTransferTransaction) = None
   \<and> tokenIndexes_inv
        (snd (AddTokenTransfer (exampleToken 5) (exampleAccount 10) 7 NewTransferTransaction))
   \<and> fst (addTokenTransfers exampleCalls NewTransferTransaction) = None
   \<and> GetTokenTransfers (snd (addTokenTransfers exampleCalls NewTransferTransaction)) (exampleToken 5)
       = Some [\<lparr>TokenTransfer_AccountID = exampleAccount 10, TokenTransfer_Amount = 7\<rparr>,
               \<lparr>TokenTransfer_AccountID = exampleAccount 12, TokenTransfer_Amount = - 7\<rparr>]
   \<and> GetTokenTransfers (snd (addTokenTransfers exampleCalls NewTransferTransaction)) (exampleToken 6)
       = Some [\<lparr>TokenTransfer_AccountID = exampleAccount 11, TokenTransfer_Amount = 1\<rparr>]
   \<and> GetTokenTransfers (snd (addTokenTransfers exampleCalls NewTransferTransaction)) (exampleToken 7)
       = None
   \<and> map Token (TokenTransfers (pb (snd (addTokenTransfers exampleCalls NewTransferTransaction))))
       = [exampleToken 5, exampleToken 6]"
proof -
  from AddTokenTransfer_one_list_per_token [of exampleCalls]
  obtain t where t: "addTokenTransfers exampleCalls NewTransferTransaction = (None, t)"
    and g: "\<And>k. GetTokenTransfers t k =
                (if transfersFor k exampleCalls = [] then None else Some (transfersFor k exampleCalls))"
    by blast
  from AddTokenTransfer_one_list_per_token [of exampleCalls] NewTransferTransaction_inv
  obtain t' where t': "AddTokenTransfer (exampleToken 5) (exampleAccount 10) 7 NewTransferTransaction
      = (None, t')" "tokenIndexes_inv t'"
    by blast
  have "map Token (TokenTransfers (pb (snd (addTokenTransfers exampleCalls NewTransferTransaction))))
       = [exampleToken 5, exampleToken 6]"
    by (simp add: exampleCalls_def NewTransferTransaction_def newTransaction_def
        AddTokenTransfer_def requireNotFrozen_def isFrozen_def exampleToken_def exampleAccount_def
        Transaction.extend_def TransferTransaction.fields_def)
  with t g t' NewTransferTransaction_inv show ?thesis
    by (simp add: transfersFor_def exampleCalls_def exampleToken_def exampleAccount_def)
qed

section \<open>Unfolding the examples\<close>

text \<open>
  The definitions a concrete instance is evaluated with: the example values, the
  setters, and the freeze with its helpers.
\<close>

lemmas example_defs =
  exampleKey_def exampleSigner_def exampleOperator_def exampleClient_def
  exampleClientNoOperator_def exampleNoNodes_def
  exampleTransactionID_def exampleMutable_def exampleFrozen_def exampleAccount_def
  exampleToken_def NewTransferTransaction_def newTransaction_def newTransactionBody_def
  zeroTransactionID_def zeroAccountID_def Transaction.extend_def TransferTransaction.fields_def

lemmas setter_defs =
  AddHbarTransfer_def AddTokenTransfer_def SetMaxTransactionFee_def SetTransactionMemo_def
  SetTransactionValidDuration_def SetTransactionID_def SetNodeAccountIDs_def
  requireNotFrozen_def IsFrozen_def isFrozen_def
  Transaction_SetMaxTransactionFee_def Transaction_SetTransactionMemo_def
  Transaction_SetTransactionValidDuration_def Transaction_SetTransactionID_def
  Transaction_SetNodeAccountIDs_def

lemmas freeze_defs =
  Freeze_def FreezeWith_def initFee_def initTransactionID_def onFreeze_def
  transaction_freezeWith_def serializePerNode_def marshalBody_def TransactionIDGenerate_def

lemma exampleFrozen_eval:
  "Freeze exampleMutable = (None, exampleFrozen) \<and> IsFrozen exampleFrozen \<and> \<not> IsFrozen exampleMutable"
  by (simp add: example_defs setter_defs freeze_defs)

section \<open>Setters on a frozen transaction\<close>

text \<open>
  C1. On a frozen \<^verbatim>\<open>TransferTransaction\<close> each of the seven setters fails with
  \<open>TransactionIsFrozen\<close> and leaves the transaction as it was: the state the call
  returns with the failure is the state it was given.
\<close>

theorem setters_fail_when_frozen:
  "IsFrozen t \<Longrightarrow>
     AddHbarTransfer accountID amount t = (Some TransactionIsFrozen, t)
   \<and> AddTokenTransfer tokenID accountID v t = (Some TransactionIsFrozen, t)
   \<and> SetMaxTransactionFee fee t = (Some TransactionIsFrozen, t)
   \<and> SetTransactionMemo memo t = (Some TransactionIsFrozen, t)
   \<and> SetTransactionValidDuration duration t = (Some TransactionIsFrozen, t)
   \<and> SetTransactionID transactionID t = (Some TransactionIsFrozen, t)
   \<and> SetNodeAccountIDs nodeID t = (Some TransactionIsFrozen, t)"
  by (simp add: AddHbarTransfer_def AddTokenTransfer_def SetMaxTransactionFee_def
      SetTransactionMemo_def SetTransactionValidDuration_def SetTransactionID_def
      SetNodeAccountIDs_def requireNotFrozen_def IsFrozen_def)

theorem setters_fail_when_frozen_witness:
  "IsFrozen exampleFrozen
   \<and> AddHbarTransfer (exampleAccount 9) \<lparr>tinybar = 5\<rparr> exampleFrozen = (Some TransactionIsFrozen, exampleFrozen)
   \<and> AddTokenTransfer (exampleToken 5) (exampleAccount 9) 5 exampleFrozen = (Some TransactionIsFrozen, exampleFrozen)
   \<and> SetMaxTransactionFee \<lparr>tinybar = 5\<rparr> exampleFrozen = (Some TransactionIsFrozen, exampleFrozen)
   \<and> SetTransactionMemo ''memo'' exampleFrozen = (Some TransactionIsFrozen, exampleFrozen)
   \<and> SetTransactionValidDuration 120 exampleFrozen = (Some TransactionIsFrozen, exampleFrozen)
   \<and> SetTransactionID exampleTransactionID exampleFrozen = (Some TransactionIsFrozen, exampleFrozen)
   \<and> SetNodeAccountIDs [exampleAccount 5] exampleFrozen = (Some TransactionIsFrozen, exampleFrozen)"
proof -
  have f: "IsFrozen exampleFrozen"
    using exampleFrozen_eval by simp
  from f setters_fail_when_frozen [OF f] show ?thesis
    by simp
qed

text \<open>On a transaction that is not frozen a setter goes through.\<close>

lemma mutable_setters:
  "\<not> IsFrozen t \<Longrightarrow> fst (SetTransactionMemo memo t) = None \<and> GetTransactionMemo (snd (SetTransactionMemo memo t)) = memo"
  by (simp add: setter_defs GetTransactionMemo_def)


section \<open>The signing loop\<close>

lemma signEach_update:
  "i < length (transactions t) \<Longrightarrow> length (signatures t) = length (transactions t) \<Longrightarrow>
   signEach pk s (t\<lparr>signatures := (signatures t)[i := x]\<rparr>) =
     (signEach pk s t)[i := x\<lparr>SigPair := SigPair x
        @ [toSignaturePairProtobuf pk (s (BodyBytes (transactions t ! i)))]\<rparr>]"
  by (auto simp: signEach_def list_eq_iff_nth_eq nth_list_update)

lemma signEach_nth:
  "i < length (transactions t) \<Longrightarrow> length (signatures t) = length (transactions t) \<Longrightarrow>
   signEach pk s t ! i = (signatures t ! i)\<lparr>SigPair := SigPair (signatures t ! i)
        @ [toSignaturePairProtobuf pk (s (BodyBytes (transactions t ! i)))]\<rparr>"
  by (simp add: signEach_def)

lemma signEach_length:
  "length (signatures t) = length (transactions t) \<Longrightarrow>
   length (signEach pk s t) = length (transactions t)"
  by (simp add: signEach_def)

lemma signLoop_aligned:
  "length (signatures t) = length (transactions t) \<Longrightarrow>
   signLoop pk s i t =
     (None, t\<lparr>signatures := take i (signatures t) @ drop i (signEach pk s t)\<rparr>)"
proof (induction pk s i t rule: signLoop.induct)
  case (1 pk s i t)
  show ?case
  proof (cases "i < length (transactions t)")
    case False
    with "1.prems" show ?thesis
      by (subst signLoop.simps) (simp add: signEach_length)
  next
    case True
    let ?x = "(signatures t ! i)\<lparr>SigPair := SigPair (signatures t ! i)
        @ [toSignaturePairProtobuf pk (s (BodyBytes (transactions t ! i)))]\<rparr>"
    let ?t1 = "t\<lparr>signatures := (signatures t)[i := ?x]\<rparr>"
    from True "1.prems" have i: "i < length (signatures t)" by simp
    have step: "signLoop pk s i t = signLoop pk s (Suc i) ?t1"
      using True i by (subst signLoop.simps) (simp add: Let_def)
    have ih: "signLoop pk s (Suc i) ?t1 =
        (None, ?t1\<lparr>signatures := take (Suc i) (signatures ?t1) @ drop (Suc i) (signEach pk s ?t1)\<rparr>)"
      using "1.IH" [OF True refl i] "1.prems" by simp
    have a: "take (Suc i) ((signatures t)[i := ?x]) = take i (signatures t) @ [?x]"
      using i by (simp add: take_Suc_conv_app_nth)
    have b: "drop (Suc i) (signEach pk s ?t1) = drop (Suc i) (signEach pk s t)"
      using True "1.prems" by (simp add: signEach_update)
    have c: "drop i (signEach pk s t) = ?x # drop (Suc i) (signEach pk s t)"
      using True "1.prems" signEach_nth [of i t pk s] signEach_length [of t pk s]
      by (simp add: Cons_nth_drop_Suc [symmetric])
    have "signLoop pk s i t =
        (None, t\<lparr>signatures := take (Suc i) ((signatures t)[i := ?x])
                  @ drop (Suc i) (signEach pk s ?t1)\<rparr>)"
      using step ih by simp
    also have "\<dots> = (None, t\<lparr>signatures := take i (signatures t) @ drop i (signEach pk s t)\<rparr>)"
      unfolding a b c by simp
    finally show ?thesis .
  qed
qed

lemma signLoop_0:
  "length (signatures t) = length (transactions t) \<Longrightarrow>
   signLoop pk s 0 t = (None, t\<lparr>signatures := signEach pk s t\<rparr>)"
  by (simp add: signLoop_aligned)


section \<open>Freeze: what a failed call leaves behind\<close>

lemma initFee_eq:
  "\<exists>fee. initFee client t = t\<lparr>pbBody := (pbBody t)\<lparr>TransactionFee := fee\<rparr>\<rparr>
     \<and> (fee = TransactionFee (pbBody t)
         \<or> TransactionFee (pbBody t) = 0
            \<and> (\<exists>c. client = Some c \<and> fee = tinybar (maxTransactionFee c)))"
proof (cases "\<exists>c. client = Some c \<and> TransactionFee (pbBody t) = 0")
  case True
  then obtain c where "client = Some c" "TransactionFee (pbBody t) = 0"
    by blast
  then show ?thesis
    by (intro exI [of _ "tinybar (maxTransactionFee c)"])
      (simp add: initFee_def Transaction_SetMaxTransactionFee_def)
next
  case False
  then have "initFee client t = t"
    by (cases client) (auto simp: initFee_def)
  then show ?thesis
    by (intro exI [of _ "TransactionFee (pbBody t)"]) simp
qed

lemma initFee_None [simp]: "initFee None t = t"
  by (simp add: initFee_def)

lemma initTransactionID_error:
  "initTransactionID client t = (Some err, t') \<Longrightarrow> t' = t \<and> err = errNoTransactionID"
  by (auto simp: initTransactionID_def split: option.splits)

lemma initTransactionID_None_ok:
  "initTransactionID None t = (None, t') \<Longrightarrow> t' = t"
  by (auto simp: initTransactionID_def split: option.splits)

lemma initTransactionID_set:
  "TransactionBody_TransactionID (pbBody t) = Some x \<Longrightarrow> initTransactionID client t = (None, t)"
  by (simp add: initTransactionID_def)

lemma transaction_freezeWith_error:
  "transaction_freezeWith client t = (Some err, t') \<Longrightarrow>
   t' = t \<and> err = errNoNodeID \<and> client = None"
  by (auto simp: transaction_freezeWith_def split: option.splits if_splits)

lemma FreezeWith_error_cases:
  assumes "FreezeWith client t = (Some err, t')"
  shows "err = errNoTransactionID \<and> t' = initFee client t
         \<or> err = errNoNodeID \<and> client = None
            \<and> t' = t\<lparr>pbBody := (pbBody t)\<lparr>Data := TransactionBody_CryptoTransfer\<rparr>\<rparr>"
proof -
  obtain e2 t2 where i: "initTransactionID client (initFee client t) = (e2, t2)"
    by (cases "initTransactionID client (initFee client t)")
  show ?thesis
  proof (cases e2)
    case (Some e)
    with i assms have "err = e" "t' = t2"
      by (simp_all add: FreezeWith_def)
    with i Some initTransactionID_error [of client "initFee client t" e t2] show ?thesis
      by simp
  next
    case None
    with i assms have f: "transaction_freezeWith client
        (t2\<lparr>pbBody := (pbBody t2)\<lparr>Data := TransactionBody_CryptoTransfer\<rparr>\<rparr>) = (Some err, t')"
      by (simp add: FreezeWith_def onFreeze_def)
    from transaction_freezeWith_error [OF f]
    have r: "t' = t2\<lparr>pbBody := (pbBody t2)\<lparr>Data := TransactionBody_CryptoTransfer\<rparr>\<rparr>"
      "err = errNoNodeID" "client = None"
      by simp_all
    with i None have "t2 = t"
      using initTransactionID_None_ok [of "initFee None t" t2] by simp
    with r show ?thesis by simp
  qed
qed

text \<open>
  C5, as amended. When \<^verbatim>\<open>FreezeWith\<close> returns an error, the TransactionID, the
  candidate node list, the per-node bodies, the signature maps and the frozen flag are
  as before, and so is every other field but two of the body: the max fee, which
  \<^verbatim>\<open>initFee\<close> has set to the client's default if it was unset, and \<open>Data\<close>, which
  \<^verbatim>\<open>onFreeze\<close> has set when the error is the missing node list.
\<close>

theorem FreezeWith_error_frame:
  "FreezeWith client t = (Some err, t') \<Longrightarrow>
     t' = t\<lparr>pbBody := (pbBody t)\<lparr>TransactionFee := TransactionFee (pbBody t'),
                                   Data := Data (pbBody t')\<rparr>\<rparr>
   \<and> GetTransactionID t' = GetTransactionID t
   \<and> id' t' = id' t
   \<and> GetNodeAccountIDs t' = GetNodeAccountIDs t
   \<and> transactions t' = transactions t
   \<and> signatures t' = signatures t
   \<and> IsFrozen t' = IsFrozen t
   \<and> (err = errNoTransactionID \<and> Data (pbBody t') = Data (pbBody t)
        \<or> err = errNoNodeID \<and> Data (pbBody t') = TransactionBody_CryptoTransfer)
   \<and> (TransactionFee (pbBody t') = TransactionFee (pbBody t)
        \<or> TransactionFee (pbBody t) = 0
           \<and> (\<exists>c. client = Some c \<and> TransactionFee (pbBody t') = tinybar (maxTransactionFee c)))"
proof -
  assume a: "FreezeWith client t = (Some err, t')"
  from FreezeWith_error_cases [OF a] show ?thesis
  proof
    assume c: "err = errNoTransactionID \<and> t' = initFee client t"
    from initFee_eq [of client t] obtain fee
      where fee: "initFee client t = t\<lparr>pbBody := (pbBody t)\<lparr>TransactionFee := fee\<rparr>\<rparr>"
        "fee = TransactionFee (pbBody t)
         \<or> TransactionFee (pbBody t) = 0
            \<and> (\<exists>c. client = Some c \<and> fee = tinybar (maxTransactionFee c))"
      by blast
    from c fee show ?thesis
      by (simp add: GetTransactionID_def Transaction_GetTransactionID_def
          GetNodeAccountIDs_def Transaction_GetNodeAccountIDs_def IsFrozen_def isFrozen_def)
  next
    assume c: "err = errNoNodeID \<and> client = None
            \<and> t' = t\<lparr>pbBody := (pbBody t)\<lparr>Data := TransactionBody_CryptoTransfer\<rparr>\<rparr>"
    then show ?thesis
      by (simp add: GetTransactionID_def Transaction_GetTransactionID_def
          GetNodeAccountIDs_def Transaction_GetNodeAccountIDs_def IsFrozen_def isFrozen_def)
  qed
qed



theorem FreezeWith_error_frame_witness:
  "FreezeWith None exampleNoNodes =
     (Some errNoNodeID,
      exampleNoNodes\<lparr>pbBody := (pbBody exampleNoNodes)\<lparr>Data := TransactionBody_CryptoTransfer\<rparr>\<rparr>)
   \<and> GetTransactionID (snd (FreezeWith None exampleNoNodes)) = exampleTransactionID
   \<and> transactions (snd (FreezeWith None exampleNoNodes)) = []"
proof -
  have e: "FreezeWith None exampleNoNodes =
     (Some errNoNodeID,
      exampleNoNodes\<lparr>pbBody := (pbBody exampleNoNodes)\<lparr>Data := TransactionBody_CryptoTransfer\<rparr>\<rparr>)"
    by (simp add: example_defs setter_defs freeze_defs)
  note w = FreezeWith_error_frame [OF e, THEN conjunct2]
  have "GetTransactionID exampleNoNodes = exampleTransactionID"
    "transactions exampleNoNodes = []"
    by (simp_all add: example_defs setter_defs GetTransactionID_def Transaction_GetTransactionID_def)
  with w e show ?thesis
    by simp
qed

text \<open>
  C5 as stated fails: with a client that has a default max fee and no operator,
  \<^verbatim>\<open>FreezeWith\<close> on a new transaction returns an error and has changed the max fee
  from unset to the client's default; and \<^verbatim>\<open>Freeze()\<close> on a transaction with a
  TransactionID and no node returns an error after \<^verbatim>\<open>onFreeze\<close> has set the \<open>Data\<close>
  of the body.
\<close>

theorem FreezeWith_error_changes_fee:
  "FreezeWith (Some exampleClientNoOperator) NewTransferTransaction =
     (Some errNoTransactionID,
      NewTransferTransaction\<lparr>pbBody := (pbBody NewTransferTransaction)\<lparr>TransactionFee := 100\<rparr>\<rparr>)
   \<and> GetMaxTransactionFee NewTransferTransaction = \<lparr>tinybar = 0\<rparr>
   \<and> GetMaxTransactionFee (snd (FreezeWith (Some exampleClientNoOperator) NewTransferTransaction))
       = \<lparr>tinybar = 100\<rparr>
   \<and> fst (Freeze exampleNoNodes) = Some errNoNodeID
   \<and> Data (pbBody exampleNoNodes) = Data_nil
   \<and> Data (pbBody (snd (Freeze exampleNoNodes))) = TransactionBody_CryptoTransfer"
proof -
  have e: "FreezeWith (Some exampleClientNoOperator) NewTransferTransaction =
     (Some errNoTransactionID,
      NewTransferTransaction\<lparr>pbBody := (pbBody NewTransferTransaction)\<lparr>TransactionFee := 100\<rparr>\<rparr>)"
    by (simp add: example_defs setter_defs freeze_defs)
  have f: "GetMaxTransactionFee NewTransferTransaction = \<lparr>tinybar = 0\<rparr>"
    by (simp add: example_defs GetMaxTransactionFee_def)
  have g: "GetMaxTransactionFee (NewTransferTransaction\<lparr>pbBody := (pbBody NewTransferTransaction)\<lparr>TransactionFee := 100\<rparr>\<rparr>)
      = \<lparr>tinybar = 100\<rparr>"
    by (simp add: GetMaxTransactionFee_def)
  have h: "Freeze exampleNoNodes =
     (Some errNoNodeID,
      exampleNoNodes\<lparr>pbBody := (pbBody exampleNoNodes)\<lparr>Data := TransactionBody_CryptoTransfer\<rparr>\<rparr>)"
    by (simp add: example_defs setter_defs freeze_defs)
  have d: "Data (pbBody exampleNoNodes) = Data_nil"
    by (simp add: example_defs setter_defs)
  show ?thesis
    unfolding e h fst_conv snd_conv by (intro conjI refl f g d) simp
qed

section \<open>Freeze when the TransactionID and the nodes are set\<close>

lemma initFee_fields [simp]:
  "id' (initFee client t) = id' t"
  "transactions (initFee client t) = transactions t"
  "signatures (initFee client t) = signatures t"
  "nodeIDs (initFee client t) = nodeIDs t"
  "frozen (initFee client t) = frozen t"
  "pb (initFee client t) = pb t"
  "tokenIndexes (initFee client t) = tokenIndexes t"
  "TransactionBody_TransactionID (pbBody (initFee client t)) = TransactionBody_TransactionID (pbBody t)"
  by (simp_all add: initFee_def Transaction_SetMaxTransactionFee_def split: option.splits)

lemma serializePerNode_fields [simp]:
  "id' (serializePerNode t) = id' t"
  "nodeIDs (serializePerNode t) = nodeIDs t"
  "frozen (serializePerNode t)"
  "pbBody (serializePerNode t) = pbBody t"
  "pb (serializePerNode t) = pb t"
  "tokenIndexes (serializePerNode t) = tokenIndexes t"
  "signatures (serializePerNode t) = map (\<lambda>n. \<lparr>SigPair = []\<rparr>) (nodeIDs t)"
  "transactions (serializePerNode t) = map (\<lambda>n. \<lparr>BodyBytes = marshalBody t n\<rparr>) (nodeIDs t)"
  by (simp_all add: serializePerNode_def)

text \<open>FreezeWith when the TransactionID is set and the node list is not empty.\<close>

lemma FreezeWith_ready:
  assumes "TransactionBody_TransactionID (pbBody t) = Some x" and "nodeIDs t \<noteq> []"
  shows "FreezeWith client t =
     (None, serializePerNode ((initFee client t)
        \<lparr>pbBody := (pbBody (initFee client t))\<lparr>Data := TransactionBody_CryptoTransfer\<rparr>\<rparr>))"
proof -
  have "initTransactionID client (initFee client t) = (None, initFee client t)"
    using assms(1) by (simp add: initTransactionID_set)
  with assms(2) show ?thesis
    by (simp add: FreezeWith_def onFreeze_def transaction_freezeWith_def)
qed

lemma exampleFrozen_ready:
  "TransactionBody_TransactionID (pbBody exampleFrozen) = Some exampleTransactionID
   \<and> nodeIDs exampleFrozen = [exampleAccount 3, exampleAccount 4]
   \<and> id' exampleFrozen = exampleTransactionID
   \<and> TransactionFee (pbBody exampleFrozen) = 0"
  by (simp add: example_defs setter_defs freeze_defs)

section \<open>Sign: the freeze before signing\<close>

lemma Freeze_eq:
  "Freeze t =
     (case TransactionBody_TransactionID (pbBody t) of
        None \<Rightarrow> (Some errNoTransactionID, t)
      | Some x \<Rightarrow>
          if nodeIDs t = []
          then (Some errNoNodeID, t\<lparr>pbBody := (pbBody t)\<lparr>Data := TransactionBody_CryptoTransfer\<rparr>\<rparr>)
          else (None, serializePerNode
                  (t\<lparr>pbBody := (pbBody t)\<lparr>Data := TransactionBody_CryptoTransfer\<rparr>\<rparr>)))"
  by (simp add: Freeze_def FreezeWith_def initTransactionID_def onFreeze_def
      transaction_freezeWith_def split: option.splits)

lemma keyAlreadySigned_iff:
  "keyAlreadySigned pk t \<longleftrightarrow> (\<exists>m \<in> set (signatures t). keyData pk \<in> set (signedKeys m))"
  unfolding keyAlreadySigned_def signedKeys_def list_ex_iff by force

lemma signEach_fresh:
  "signEach pk s (serializePerNode t) =
     map (\<lambda>n. \<lparr>SigPair = [toSignaturePairProtobuf pk (s (marshalBody t n))]\<rparr>) (nodeIDs t)"
  by (simp add: signEach_def zip_map_map map_zip_map zip_same_conv_map comp_def)

text \<open>
  C7, as amended. On a transaction that is not frozen and has its TransactionID and a
  non-empty candidate node list set, \<^verbatim>\<open>SignWith\<close> (and \<^verbatim>\<open>Sign\<close>, which calls it)
  freezes first: after the call the transaction is frozen, there is one body and one
  signature map per candidate node, and the signature map of every body holds the
  signature of that body by the given key.
\<close>

theorem SignWith_freezes_and_signs:
  "\<not> IsFrozen t \<Longrightarrow> TransactionBody_TransactionID (pbBody t) \<noteq> None \<Longrightarrow> nodeIDs t \<noteq> [] \<Longrightarrow>
   \<exists>t'. SignWith pk s t = (None, t')
      \<and> Sign \<lparr>PrivateKey_PublicKey = pk, PrivateKey_Sign = s\<rparr> t = (None, t')
      \<and> IsFrozen t'
      \<and> length (transactions t') = length (nodeIDs t)
      \<and> length (signatures t') = length (transactions t')
      \<and> (\<forall>i < length (transactions t').
            SigPair (signatures t' ! i)
              = [toSignaturePairProtobuf pk (s (BodyBytes (transactions t' ! i)))])"
proof -
  assume u: "\<not> IsFrozen t" and "TransactionBody_TransactionID (pbBody t) \<noteq> None"
    and n: "nodeIDs t \<noteq> []"
  then obtain x where x: "TransactionBody_TransactionID (pbBody t) = Some x"
    by blast
  let ?t0 = "serializePerNode (t\<lparr>pbBody := (pbBody t)\<lparr>Data := TransactionBody_CryptoTransfer\<rparr>\<rparr>)"
  have f: "Freeze t = (None, ?t0)"
    using x n by (simp add: Freeze_eq)
  have k: "\<not> keyAlreadySigned pk ?t0"
    by (simp add: keyAlreadySigned_iff signedKeys_def)
  have l: "signLoop pk s 0 ?t0 = (None, ?t0\<lparr>signatures := signEach pk s ?t0\<rparr>)"
    by (rule signLoop_0) simp
  have sw: "SignWith pk s t = (None, ?t0\<lparr>signatures := signEach pk s ?t0\<rparr>)"
    using u f k l by (simp add: SignWith_def Let_def)
  show ?thesis
    by (simp add: Sign_def sw signEach_fresh IsFrozen_def isFrozen_def)
qed

theorem SignWith_freezes_and_signs_witness:
  "\<not> IsFrozen exampleMutable
   \<and> TransactionBody_TransactionID (pbBody exampleMutable) \<noteq> None
   \<and> nodeIDs exampleMutable \<noteq> []
   \<and> fst (SignWith exampleKey exampleSigner exampleMutable) = None
   \<and> IsFrozen (snd (SignWith exampleKey exampleSigner exampleMutable))
   \<and> map SigPair (signatures (snd (SignWith exampleKey exampleSigner exampleMutable)))
       = [[\<lparr>PubKeyPrefix = [1, 2, 3], Signature = [7, 7]\<rparr>],
          [\<lparr>PubKeyPrefix = [1, 2, 3], Signature = [7, 7]\<rparr>]]"
proof -
  have u: "\<not> IsFrozen exampleMutable"
    using exampleFrozen_eval by simp
  have i: "TransactionBody_TransactionID (pbBody exampleMutable) \<noteq> None"
    and n: "nodeIDs exampleMutable \<noteq> []" and n2: "length (nodeIDs exampleMutable) = 2"
    by (simp_all add: example_defs setter_defs)
  from SignWith_freezes_and_signs [OF u i n, of exampleKey exampleSigner]
  obtain t' where t': "SignWith exampleKey exampleSigner exampleMutable = (None, t')"
    "IsFrozen t'" "length (transactions t') = length (nodeIDs exampleMutable)"
    "length (signatures t') = length (transactions t')"
    "\<And>i. i < length (transactions t') \<Longrightarrow> SigPair (signatures t' ! i)
              = [toSignaturePairProtobuf exampleKey (exampleSigner (BodyBytes (transactions t' ! i)))]"
    by blast
  from t'(3,4) n2 have len: "length (signatures t') = 2" "length (transactions t') = 2"
    by simp_all
  have "map SigPair (signatures t') = [SigPair (signatures t' ! 0), SigPair (signatures t' ! 1)]"
    using len(1) by (auto simp: list_eq_iff_nth_eq less_Suc_eq numeral_2_eq_2)
  also have "\<dots> = [[\<lparr>PubKeyPrefix = [1, 2, 3], Signature = [7, 7]\<rparr>],
          [\<lparr>PubKeyPrefix = [1, 2, 3], Signature = [7, 7]\<rparr>]]"
    using t'(5) [of 0] t'(5) [of 1] len(2)
    by (simp add: toSignaturePairProtobuf_def exampleKey_def exampleSigner_def)
  finally show ?thesis
    using u i n t'(1,2) by simp
qed

text \<open>
  C7 as stated fails: on a new transaction \<^verbatim>\<open>Freeze()\<close> returns an error, which
  \<^verbatim>\<open>SignWith\<close> drops; the call returns normally and the transaction is neither frozen
  nor signed.
\<close>

theorem SignWith_freeze_failure_dropped:
  "\<not> IsFrozen NewTransferTransaction
   \<and> Freeze NewTransferTransaction = (Some errNoTransactionID, NewTransferTransaction)
   \<and> SignWith exampleKey exampleSigner NewTransferTransaction = (None, NewTransferTransaction)
   \<and> \<not> IsFrozen (snd (SignWith exampleKey exampleSigner NewTransferTransaction))
   \<and> signatures (snd (SignWith exampleKey exampleSigner NewTransferTransaction)) = []"
proof -
  have u: "\<not> IsFrozen NewTransferTransaction"
    and i: "TransactionBody_TransactionID (pbBody NewTransferTransaction) = None"
    and e: "signatures NewTransferTransaction = []" "transactions NewTransferTransaction = []"
    by (simp_all add: example_defs setter_defs)
  have f: "Freeze NewTransferTransaction = (Some errNoTransactionID, NewTransferTransaction)"
    using i by (simp add: Freeze_eq)
  have k: "\<not> keyAlreadySigned exampleKey NewTransferTransaction"
    using e by (simp add: keyAlreadySigned_def)
  have "signLoop exampleKey exampleSigner 0 NewTransferTransaction
      = (None, NewTransferTransaction\<lparr>signatures := signEach exampleKey exampleSigner NewTransferTransaction\<rparr>)"
    by (rule signLoop_0) (simp add: e)
  also have "signEach exampleKey exampleSigner NewTransferTransaction = signatures NewTransferTransaction"
    using e by (simp add: signEach_def)
  finally have l: "signLoop exampleKey exampleSigner 0 NewTransferTransaction = (None, NewTransferTransaction)"
    by simp
  have sw: "SignWith exampleKey exampleSigner NewTransferTransaction = (None, NewTransferTransaction)"
    using u f k l by (simp add: SignWith_def Let_def)
  show ?thesis
    unfolding sw snd_conv using u f e by simp
qed

section \<open>Sign: one entry per key\<close>

lemma SignWith_preSign:
  "SignWith pk s t =
     (if keyAlreadySigned pk (preSign t) then (None, preSign t)
      else signLoop pk s 0 (preSign t))"
  by (simp add: SignWith_def preSign_def Let_def)

lemma signatures_inv_fresh:
  "signatures_inv (serializePerNode t)"
  by (simp add: signatures_inv_def signedKeys_def)

lemma signatures_inv_length:
  "signatures_inv t \<Longrightarrow> length (signatures t) = length (transactions t)"
  unfolding signatures_inv_def by blast

lemma signatures_inv_distinct:
  "signatures_inv t \<Longrightarrow> m \<in> set (signatures t) \<Longrightarrow> distinct (signedKeys m)"
  unfolding signatures_inv_def by blast

lemma signatures_inv_same_keys:
  "signatures_inv t \<Longrightarrow> m \<in> set (signatures t) \<Longrightarrow> m' \<in> set (signatures t) \<Longrightarrow>
   set (signedKeys m) = set (signedKeys m')"
  unfolding signatures_inv_def by blast

lemma signatures_inv_frame:
  "signatures_inv (t\<lparr>pbBody := b\<rparr>) = signatures_inv t"
  by (simp add: signatures_inv_def)

lemma signatures_inv_Freeze:
  assumes "signatures_inv t"
  shows "signatures_inv (snd (Freeze t))"
proof (cases "TransactionBody_TransactionID (pbBody t)")
  case None
  then have e: "Freeze t = (Some errNoTransactionID, t)"
    by (simp add: Freeze_eq)
  show ?thesis
    unfolding e snd_conv by (rule assms)
next
  case (Some x)
  show ?thesis
  proof (cases "nodeIDs t = []")
    case True
    with Some have e: "Freeze t = (Some errNoNodeID,
        t\<lparr>pbBody := (pbBody t)\<lparr>Data := TransactionBody_CryptoTransfer\<rparr>\<rparr>)"
      by (simp add: Freeze_eq)
    show ?thesis
      unfolding e snd_conv signatures_inv_frame by (rule assms)
  next
    case False
    with Some have e: "Freeze t = (None, serializePerNode
        (t\<lparr>pbBody := (pbBody t)\<lparr>Data := TransactionBody_CryptoTransfer\<rparr>\<rparr>))"
      by (simp add: Freeze_eq)
    show ?thesis
      unfolding e snd_conv by (rule signatures_inv_fresh)
  qed
qed

lemma signatures_inv_preSign:
  "signatures_inv t \<Longrightarrow> signatures_inv (preSign t)"
  by (simp add: preSign_def signatures_inv_Freeze)

lemma preSign_idem:
  "preSign ((preSign t)\<lparr>signatures := X\<rparr>) = (preSign t)\<lparr>signatures := X\<rparr>"
proof (cases "frozen t")
  case True
  then show ?thesis
    by (simp add: preSign_def IsFrozen_def isFrozen_def)
next
  case False
  show ?thesis
  proof (cases "TransactionBody_TransactionID (pbBody t)")
    case None
    with False show ?thesis
      by (simp add: preSign_def Freeze_eq IsFrozen_def isFrozen_def)
  next
    case (Some x)
    with False show ?thesis
      by (cases "nodeIDs t = []") (simp_all add: preSign_def Freeze_eq IsFrozen_def isFrozen_def)
  qed
qed

lemma preSign_idem0: "preSign (preSign t) = preSign t"
  using preSign_idem [where t = t and X = "signatures (preSign t)"] by simp

lemma entriesOf_one:
  "distinct (signedKeys m) \<Longrightarrow> keyData pk \<in> set (signedKeys m) \<Longrightarrow> length (entriesOf pk m) = 1"
proof -
  have "distinct (map PubKeyPrefix ps) \<Longrightarrow> k \<in> PubKeyPrefix ` set ps \<Longrightarrow>
        length (filter (\<lambda>pair. PubKeyPrefix pair = k) ps) = 1" for ps :: "SignaturePair list" and k
  proof (induction ps)
    case Nil
    then show ?case by simp
  next
    case (Cons p ps)
    show ?case
    proof (cases "PubKeyPrefix p = k")
      case True
      with Cons.prems have "k \<notin> PubKeyPrefix ` set ps" by auto
      then have "filter (\<lambda>pair. PubKeyPrefix pair = k) ps = []"
        by (auto simp: filter_empty_conv)
      with True show ?thesis by simp
    next
      case False
      with Cons show ?thesis by auto
    qed
  qed
  then show "distinct (signedKeys m) \<Longrightarrow> keyData pk \<in> set (signedKeys m) \<Longrightarrow> length (entriesOf pk m) = 1"
    by (simp add: signedKeys_def entriesOf_def)
qed

lemma already_signed_once:
  assumes "signatures_inv t" and "keyAlreadySigned pk t"
  shows "\<forall>m \<in> set (signatures t). length (entriesOf pk m) = 1"
proof
  fix m assume m: "m \<in> set (signatures t)"
  from assms(2) obtain m0 where "m0 \<in> set (signatures t)" "keyData pk \<in> set (signedKeys m0)"
    by (auto simp: keyAlreadySigned_iff)
  with signatures_inv_same_keys [OF assms(1) m, of m0] signatures_inv_distinct [OF assms(1) m]
  have "keyData pk \<in> set (signedKeys m)" "distinct (signedKeys m)"
    by simp_all
  then show "length (entriesOf pk m) = 1"
    by (simp add: entriesOf_one)
qed

lemma in_signEach:
  assumes "m' \<in> set (signEach pk s t)"
  shows "\<exists>m sig. m \<in> set (signatures t)
           \<and> m' = m\<lparr>SigPair := SigPair m @ [\<lparr>PubKeyPrefix = keyData pk, Signature = sig\<rparr>]\<rparr>"
  using assms
  by (auto simp: signEach_def toSignaturePairProtobuf_def dest: set_zip_rightD)

lemma signEach_inv:
  assumes "signatures_inv t" and "\<not> keyAlreadySigned pk t"
  shows "signatures_inv (t\<lparr>signatures := signEach pk s t\<rparr>)"
    and "\<forall>m \<in> set (signEach pk s t). length (entriesOf pk m) = 1"
proof -
  have keys: "signedKeys m' = signedKeys m @ [keyData pk]"
    if "m' = m\<lparr>SigPair := SigPair m @ [\<lparr>PubKeyPrefix = keyData pk, Signature = sig\<rparr>]\<rparr>"
    for m m' sig
    using that by (simp add: signedKeys_def)
  have fresh: "keyData pk \<notin> set (signedKeys m)" if "m \<in> set (signatures t)" for m
    using that assms(2) by (auto simp: keyAlreadySigned_iff)
  have d: "distinct (signedKeys m')" if "m' \<in> set (signEach pk s t)" for m'
  proof -
    from in_signEach [OF that] obtain m sig where m: "m \<in> set (signatures t)"
      "m' = m\<lparr>SigPair := SigPair m @ [\<lparr>PubKeyPrefix = keyData pk, Signature = sig\<rparr>]\<rparr>"
      by blast
    from signatures_inv_distinct [OF assms(1) m(1)] have "distinct (signedKeys m)" .
    with keys [OF m(2)] fresh [OF m(1)] show ?thesis by simp
  qed
  have a: "set (signedKeys m1') = set (signedKeys m2')"
    if "m1' \<in> set (signEach pk s t)" "m2' \<in> set (signEach pk s t)" for m1' m2'
  proof -
    from in_signEach [OF that(1)] obtain m1 sig1 where m1: "m1 \<in> set (signatures t)"
      "m1' = m1\<lparr>SigPair := SigPair m1 @ [\<lparr>PubKeyPrefix = keyData pk, Signature = sig1\<rparr>]\<rparr>"
      by blast
    from in_signEach [OF that(2)] obtain m2 sig2 where m2: "m2 \<in> set (signatures t)"
      "m2' = m2\<lparr>SigPair := SigPair m2 @ [\<lparr>PubKeyPrefix = keyData pk, Signature = sig2\<rparr>]\<rparr>"
      by blast
    from signatures_inv_same_keys [OF assms(1) m1(1) m2(1)]
    have "set (signedKeys m1) = set (signedKeys m2)" .
    then show ?thesis
      unfolding keys [OF m1(2)] keys [OF m2(2)] by simp
  qed
  have len: "length (signEach pk s t) = length (transactions t)"
    using signatures_inv_length [OF assms(1)] by (simp add: signEach_length)
  have sel: "signatures (t\<lparr>signatures := signEach pk s t\<rparr>) = signEach pk s t"
    "transactions (t\<lparr>signatures := signEach pk s t\<rparr>) = transactions t"
    by simp_all
  show "signatures_inv (t\<lparr>signatures := signEach pk s t\<rparr>)"
    unfolding signatures_inv_def sel
  proof (intro conjI ballI)
    show "length (signEach pk s t) = length (transactions t)" by (rule len)
  next
    fix m assume "m \<in> set (signEach pk s t)"
    then show "distinct (signedKeys m)" by (rule d)
  next
    fix m m' assume "m \<in> set (signEach pk s t)" "m' \<in> set (signEach pk s t)"
    then show "set (signedKeys m) = set (signedKeys m')" by (rule a)
  qed
  show "\<forall>m \<in> set (signEach pk s t). length (entriesOf pk m) = 1"
  proof
    fix m' assume m': "m' \<in> set (signEach pk s t)"
    from in_signEach [OF m'] obtain m sig where m: "m \<in> set (signatures t)"
      "m' = m\<lparr>SigPair := SigPair m @ [\<lparr>PubKeyPrefix = keyData pk, Signature = sig\<rparr>]\<rparr>"
      by blast
    have "keyData pk \<in> set (signedKeys m')"
      using keys [OF m(2)] by simp
    with d [OF m'] show "length (entriesOf pk m') = 1"
      by (simp add: entriesOf_one)
  qed
qed

text \<open>SignWith when the freeze is out of the way.\<close>

lemma SignWith_aligned:
  assumes "signatures_inv t"
  shows "SignWith pk s t =
     (None, if keyAlreadySigned pk (preSign t) then preSign t
            else (preSign t)\<lparr>signatures := signEach pk s (preSign t)\<rparr>)"
proof -
  from signatures_inv_length [OF signatures_inv_preSign [OF assms]]
  have "length (signatures (preSign t)) = length (transactions (preSign t))" .
  then show ?thesis
    by (simp add: SignWith_preSign signLoop_0)
qed

lemma keyAlreadySigned_signEach:
  assumes "length (signatures t) = length (transactions t)" and "signatures t \<noteq> []"
  shows "keyAlreadySigned pk (t\<lparr>signatures := signEach pk s t\<rparr>)"
proof -
  from assms have "0 < length (transactions t)" by (cases "signatures t") auto
  with assms(1) have "signEach pk s t ! 0 \<in> set (signEach pk s t)"
    by (simp add: signEach_length)
  moreover have "keyData pk \<in> set (signedKeys (signEach pk s t ! 0))"
    using assms \<open>0 < length (transactions t)\<close>
    by (simp add: signEach_nth signedKeys_def toSignaturePairProtobuf_def)
  ultimately show ?thesis
    by (auto simp: keyAlreadySigned_iff)
qed

lemma signatures_inv_eqI:
  assumes "signatures t' = signatures t" and "transactions t' = transactions t"
    and "signatures_inv t"
  shows "signatures_inv t'"
  using assms(3) unfolding signatures_inv_def assms(1,2) .

lemma signatures_inv_New: "signatures_inv NewTransferTransaction"
  by (simp add: signatures_inv_def NewTransferTransaction_def newTransaction_def
      Transaction.extend_def TransferTransaction.fields_def)

lemma setters_keep_signatures:
  "signatures (snd (AddHbarTransfer accountID amount t)) = signatures t
   \<and> transactions (snd (AddHbarTransfer accountID amount t)) = transactions t"
  "signatures (snd (AddTokenTransfer tokenID accountID v t)) = signatures t
   \<and> transactions (snd (AddTokenTransfer tokenID accountID v t)) = transactions t"
  "signatures (snd (SetMaxTransactionFee fee t)) = signatures t
   \<and> transactions (snd (SetMaxTransactionFee fee t)) = transactions t"
  "signatures (snd (SetTransactionMemo memo t)) = signatures t
   \<and> transactions (snd (SetTransactionMemo memo t)) = transactions t"
  "signatures (snd (SetTransactionValidDuration duration t)) = signatures t
   \<and> transactions (snd (SetTransactionValidDuration duration t)) = transactions t"
  "signatures (snd (SetTransactionID transactionID t)) = signatures t
   \<and> transactions (snd (SetTransactionID transactionID t)) = transactions t"
  "signatures (snd (SetNodeAccountIDs nodeID t)) = signatures t
   \<and> transactions (snd (SetNodeAccountIDs nodeID t)) = transactions t"
  by (simp_all add: setter_defs Let_def split: option.splits)

lemma transaction_freezeWith_success:
  "transaction_freezeWith client t = (None, t') \<Longrightarrow> \<exists>u. t' = serializePerNode u"
  by (cases "nodeIDs t = []"; cases client) (auto simp: transaction_freezeWith_def)

lemma FreezeWith_success:
  assumes "FreezeWith client t = (None, t')"
  shows "\<exists>u. t' = serializePerNode u"
proof -
  obtain e2 t2 where i: "initTransactionID client (initFee client t) = (e2, t2)"
    by (cases "initTransactionID client (initFee client t)")
  show ?thesis
  proof (cases e2)
    case (Some e)
    with i assms show ?thesis
      by (simp add: FreezeWith_def)
  next
    case None
    with i assms have "transaction_freezeWith client
        (t2\<lparr>pbBody := (pbBody t2)\<lparr>Data := TransactionBody_CryptoTransfer\<rparr>\<rparr>) = (None, t')"
      by (simp add: FreezeWith_def onFreeze_def)
    then show ?thesis
      by (rule transaction_freezeWith_success)
  qed
qed

lemma signatures_inv_FreezeWith:
  assumes "signatures_inv t"
  shows "signatures_inv (snd (FreezeWith client t))"
proof -
  obtain e t' where f: "FreezeWith client t = (e, t')"
    by (cases "FreezeWith client t")
  have "signatures_inv t'"
  proof (cases e)
    case None
    with f FreezeWith_success [of client t t'] obtain u where "t' = serializePerNode u"
      by blast
    then show ?thesis
      by (simp add: signatures_inv_fresh)
  next
    case (Some err)
    with f FreezeWith_error_cases [of client t err t']
    have "t' = initFee client t
          \<or> t' = t\<lparr>pbBody := (pbBody t)\<lparr>Data := TransactionBody_CryptoTransfer\<rparr>\<rparr>"
      by blast
    then have "signatures t' = signatures t" "transactions t' = transactions t"
      by auto
    then show ?thesis
      using assms by (rule signatures_inv_eqI)
  qed
  then show ?thesis
    unfolding f snd_conv .
qed

lemma signatures_inv_SignWith:
  assumes "signatures_inv t"
  shows "signatures_inv (snd (SignWith pk s t))"
proof (cases "keyAlreadySigned pk (preSign t)")
  case True
  then have "snd (SignWith pk s t) = preSign t"
    by (simp add: SignWith_aligned [OF assms])
  then show ?thesis
    using signatures_inv_preSign [OF assms] by simp
next
  case False
  then have "snd (SignWith pk s t) = (preSign t)\<lparr>signatures := signEach pk s (preSign t)\<rparr>"
    by (simp add: SignWith_aligned [OF assms])
  then show ?thesis
    using signEach_inv(1) [OF signatures_inv_preSign [OF assms] False, of s] by simp
qed

lemma signatures_inv_SignWithOperator:
  assumes "signatures_inv t"
  shows "signatures_inv (snd (SignWithOperator client t))"
proof (cases client)
  case None
  with assms show ?thesis by (simp add: SignWithOperator_def)
next
  case (Some c)
  show ?thesis
  proof (cases "operator c")
    case None
    with Some assms show ?thesis by (simp add: SignWithOperator_def)
  next
    case op: (Some op)
    have "signatures_inv (if \<not> IsFrozen t then snd (FreezeWith (Some c) t) else t)"
      using assms by (simp add: signatures_inv_FreezeWith)
    then have "signatures_inv (snd (SignWith (Operator_publicKey op) (Operator_signer op)
        (if \<not> IsFrozen t then snd (FreezeWith (Some c) t) else t)))"
      by (rule signatures_inv_SignWith)
    with Some op show ?thesis
      by (simp add: SignWithOperator_def Let_def)
  qed
qed

lemma signatures_inv_Execute:
  assumes "signatures_inv t"
  shows "signatures_inv (snd (Execute_beforeDispatch client t))"
proof -
  let ?t1 = "if \<not> IsFrozen t then snd (FreezeWith client t) else t"
  have inv1: "signatures_inv ?t1"
    using assms by (simp add: signatures_inv_FreezeWith)
  show ?thesis
  proof (cases client)
    case None
    with inv1 show ?thesis
      by (auto simp: Execute_beforeDispatch_def Let_def split: if_splits)
  next
    case (Some c)
    show ?thesis
    proof (cases "operator c")
      case None
      with Some inv1 show ?thesis
        by (auto simp: Execute_beforeDispatch_def Let_def split: if_splits)
    next
      case op: (Some op)
      have "signatures_inv (snd (SignWith (GetOperatorPublicKey c) (Operator_signer op) ?t1))"
        using inv1 by (rule signatures_inv_SignWith)
      with Some op inv1 show ?thesis
        by (auto simp: Execute_beforeDispatch_def Let_def split: if_splits)
    qed
  qed
qed

lemma reachable_signatures_inv:
  "reachable t \<Longrightarrow> signatures_inv t"
proof (induction rule: reachable.induct)
  case reachable_new
  show ?case by (rule signatures_inv_New)
next
  case (reachable_FreezeWith t client)
  then show ?case by (simp add: signatures_inv_FreezeWith)
next
  case (reachable_SignWith t publicKey sign)
  then show ?case by (simp add: signatures_inv_SignWith)
next
  case (reachable_SignWithOperator t client)
  then show ?case by (simp add: signatures_inv_SignWithOperator)
next
  case (reachable_Execute t client)
  then show ?case by (simp add: signatures_inv_Execute)
qed (erule signatures_inv_eqI [rotated 2], simp_all add: setters_keep_signatures)+

text \<open>\<open>per_node_inv\<close> holds of every transaction reachable through the functions of the file.\<close>

lemma per_node_inv_eqI:
  assumes "frozen t' = frozen t" and "transactions t' = transactions t"
    and "signatures t' = signatures t" and "nodeIDs t' = nodeIDs t \<or> \<not> frozen t"
    and "per_node_inv t"
  shows "per_node_inv t'"
  using assms(4,5) unfolding per_node_inv_def assms(1,2,3) by auto

lemma per_node_inv_setters:
  assumes "per_node_inv t"
  shows "per_node_inv (snd (AddHbarTransfer accountID amount t))"
    "per_node_inv (snd (AddTokenTransfer tokenID accountID v t))"
    "per_node_inv (snd (SetMaxTransactionFee fee t))"
    "per_node_inv (snd (SetTransactionMemo memo t))"
    "per_node_inv (snd (SetTransactionValidDuration duration t))"
    "per_node_inv (snd (SetTransactionID transactionID t))"
    "per_node_inv (snd (SetNodeAccountIDs nodeID t))"
  using assms
  by (cases "frozen t"; simp add: per_node_inv_def setter_defs Let_def split: option.splits)+

lemma per_node_inv_fresh: "per_node_inv (serializePerNode u)"
  by (simp add: per_node_inv_def)

lemma per_node_inv_FreezeWith:
  assumes "per_node_inv t"
  shows "per_node_inv (snd (FreezeWith client t))"
proof -
  obtain e t' where f: "FreezeWith client t = (e, t')"
    by (cases "FreezeWith client t")
  have "per_node_inv t'"
  proof (cases e)
    case None
    with f FreezeWith_success [of client t t'] obtain u where "t' = serializePerNode u"
      by blast
    then show ?thesis
      by (simp add: per_node_inv_fresh)
  next
    case (Some err)
    with f FreezeWith_error_cases [of client t err t']
    have "t' = initFee client t
          \<or> t' = t\<lparr>pbBody := (pbBody t)\<lparr>Data := TransactionBody_CryptoTransfer\<rparr>\<rparr>"
      by blast
    then have "frozen t' = frozen t" "transactions t' = transactions t"
      "signatures t' = signatures t" "nodeIDs t' = nodeIDs t \<or> \<not> frozen t"
      by auto
    then show ?thesis
      using assms by (rule per_node_inv_eqI)
  qed
  then show ?thesis
    unfolding f snd_conv .
qed

lemma per_node_inv_preSign:
  "per_node_inv t \<Longrightarrow> per_node_inv (preSign t)"
  by (simp add: preSign_def Freeze_def per_node_inv_FreezeWith)

lemma signEach_Nil: "signatures t = [] \<Longrightarrow> signEach pk s t = []"
  by (simp add: signEach_def)

lemma per_node_inv_signEach:
  assumes "per_node_inv t"
  shows "per_node_inv (t\<lparr>signatures := signEach pk s t\<rparr>)"
  using assms by (cases "frozen t") (simp_all add: per_node_inv_def signEach_Nil)

lemma per_node_inv_SignWith:
  assumes "signatures_inv t" and "per_node_inv t"
  shows "per_node_inv (snd (SignWith pk s t))"
  using per_node_inv_preSign [OF assms(2)] per_node_inv_signEach [of "preSign t" pk s]
  by (simp add: SignWith_aligned [OF assms(1)])

lemma per_node_inv_SignWithOperator:
  assumes "signatures_inv t" and "per_node_inv t"
  shows "per_node_inv (snd (SignWithOperator client t))"
proof (cases client)
  case None
  with assms show ?thesis by (simp add: SignWithOperator_def)
next
  case (Some c)
  show ?thesis
  proof (cases "operator c")
    case None
    with Some assms show ?thesis by (simp add: SignWithOperator_def)
  next
    case op: (Some op)
    let ?t1 = "if \<not> IsFrozen t then snd (FreezeWith (Some c) t) else t"
    have "signatures_inv ?t1" "per_node_inv ?t1"
      using assms by (simp_all add: signatures_inv_FreezeWith per_node_inv_FreezeWith)
    then have "per_node_inv (snd (SignWith (Operator_publicKey op) (Operator_signer op) ?t1))"
      by (rule per_node_inv_SignWith)
    with Some op show ?thesis
      by (simp add: SignWithOperator_def Let_def)
  qed
qed

lemma per_node_inv_Execute:
  assumes "signatures_inv t" and "per_node_inv t"
  shows "per_node_inv (snd (Execute_beforeDispatch client t))"
proof -
  let ?t1 = "if \<not> IsFrozen t then snd (FreezeWith client t) else t"
  have inv1: "signatures_inv ?t1" "per_node_inv ?t1"
    using assms by (simp_all add: signatures_inv_FreezeWith per_node_inv_FreezeWith)
  show ?thesis
  proof (cases client)
    case None
    with inv1(2) show ?thesis
      by (auto simp: Execute_beforeDispatch_def Let_def split: if_splits)
  next
    case (Some c)
    show ?thesis
    proof (cases "operator c")
      case None
      with Some inv1(2) show ?thesis
        by (auto simp: Execute_beforeDispatch_def Let_def split: if_splits)
    next
      case op: (Some op)
      have "per_node_inv (snd (SignWith (GetOperatorPublicKey c) (Operator_signer op) ?t1))"
        using inv1 by (rule per_node_inv_SignWith)
      with Some op inv1(2) show ?thesis
        by (auto simp: Execute_beforeDispatch_def Let_def split: if_splits)
    qed
  qed
qed

lemma reachable_per_node_inv:
  "reachable t \<Longrightarrow> per_node_inv t"
proof (induction rule: reachable.induct)
  case reachable_new
  show ?case
    by (simp add: per_node_inv_def NewTransferTransaction_def newTransaction_def
        Transaction.extend_def TransferTransaction.fields_def)
next
  case (reachable_FreezeWith t client)
  then show ?case by (simp add: per_node_inv_FreezeWith)
next
  case (reachable_SignWith t publicKey sign)
  then show ?case by (simp add: per_node_inv_SignWith reachable_signatures_inv)
next
  case (reachable_SignWithOperator t client)
  then show ?case by (simp add: per_node_inv_SignWithOperator reachable_signatures_inv)
next
  case (reachable_Execute t client)
  then show ?case by (simp add: per_node_inv_Execute reachable_signatures_inv)
qed (simp_all add: per_node_inv_setters)


lemma preSign_eq: "preSign t = (if IsFrozen t then t else snd (Freeze t))"
  by (simp add: preSign_def)

lemma SignWith_second:
  assumes inv0: "signatures_inv (preSign t)"
  shows "SignWith pk s'
           (if keyAlreadySigned pk (preSign t) then preSign t
            else (preSign t)\<lparr>signatures := signEach pk s (preSign t)\<rparr>)
         = (None, if keyAlreadySigned pk (preSign t) then preSign t
                  else (preSign t)\<lparr>signatures := signEach pk s (preSign t)\<rparr>)"
proof (cases "keyAlreadySigned pk (preSign t)")
  case True
  then show ?thesis
    by (simp add: SignWith_aligned [OF inv0] preSign_idem0)
next
  case False
  let ?t0 = "preSign t"
  let ?t1 = "?t0\<lparr>signatures := signEach pk s ?t0\<rparr>"
  have inv1: "signatures_inv ?t1"
    using inv0 False by (rule signEach_inv(1))
  have len0: "length (signatures ?t0) = length (transactions ?t0)"
    using inv0 by (rule signatures_inv_length)
  have "SignWith pk s' ?t1 = (None, ?t1)"
  proof (cases "signatures ?t0 = []")
    case True
    then have e1: "signEach pk s ?t0 = signatures ?t0"
      and e2: "signEach pk s' ?t0 = signatures ?t0"
      by (simp_all add: signEach_def)
    have t1: "?t1 = ?t0"
      unfolding e1 by simp
    have "SignWith pk s' ?t0 = (None, ?t0)"
      by (simp add: SignWith_aligned [OF inv0] preSign_idem0 e2)
    then show ?thesis
      unfolding t1 .
  next
    case ne: False
    from keyAlreadySigned_signEach [OF len0 ne, of pk s]
    show ?thesis
      by (simp add: SignWith_aligned [OF inv1] preSign_idem)
  qed
  with False show ?thesis by simp
qed

text \<open>
  C2. For every transaction \<open>t\<close> reachable through the functions of the file, every key
  and every two signers. Let \<open>t0\<close> be \<open>t\<close> after the first statement of \<^verbatim>\<open>SignWith\<close>
  (\<open>t\<close> itself when it is frozen, what \<^verbatim>\<open>Freeze()\<close> leaves otherwise). The first
  \<^verbatim>\<open>SignWith\<close> returns normally with \<open>t1\<close>, which is \<open>t0\<close> when the key had signed
  and otherwise \<open>t0\<close> with, in the signature map of each per-node body, the pair of the
  key and the signer's signature of that body appended. A second \<^verbatim>\<open>SignWith\<close> with
  the same key, and any signer, returns normally and changes nothing. When \<open>t1\<close> is
  frozen it has one body and one signature map per candidate node; when it is not
  (the freeze failed) it is \<open>t0\<close> and has no body and no signature map. Every signature
  map of \<open>t1\<close> holds exactly one entry for the key, and no signature map, before or
  after, holds two entries for one key.
\<close>

theorem SignWith_twice:
  "reachable t \<Longrightarrow>
   (\<forall>m \<in> set (signatures t). distinct (signedKeys m))
   \<and> (\<exists>t0 t1.
        t0 = (if IsFrozen t then t else snd (Freeze t))
      \<and> t1 = (if keyAlreadySigned pk t0 then t0 else t0\<lparr>signatures := signEach pk s t0\<rparr>)
      \<and> SignWith pk s t = (None, t1)
      \<and> SignWith pk s' t1 = (None, t1)
      \<and> (if IsFrozen t1 then length (transactions t1) = length (nodeIDs t1)
          else t1 = t0 \<and> transactions t1 = [] \<and> signatures t1 = [])
      \<and> length (signatures t1) = length (transactions t1)
      \<and> (\<forall>i < length (transactions t1).
            length (entriesOf pk (signatures t1 ! i)) = 1
          \<and> SigPair (signatures t1 ! i) =
              (if keyAlreadySigned pk t0 then SigPair (signatures t0 ! i)
               else SigPair (signatures t0 ! i)
                      @ [toSignaturePairProtobuf pk (s (BodyBytes (transactions t1 ! i)))]))
      \<and> (\<forall>m \<in> set (signatures t1). length (entriesOf pk m) = 1)
      \<and> signatures_inv t1
      \<and> (\<forall>m \<in> set (signatures t1). distinct (signedKeys m)))"
proof -
  assume r: "reachable t"
  then have inv: "signatures_inv t"
    by (rule reachable_signatures_inv)
  let ?t0 = "preSign t"
  let ?t1 = "if keyAlreadySigned pk ?t0 then ?t0 else ?t0\<lparr>signatures := signEach pk s ?t0\<rparr>"
  have inv0: "signatures_inv ?t0"
    using inv by (rule signatures_inv_preSign)
  have pn0: "per_node_inv ?t0"
    using reachable_per_node_inv [OF r] by (rule per_node_inv_preSign)
  have len0: "length (signatures ?t0) = length (transactions ?t0)"
    using inv0 by (rule signatures_inv_length)
  have sw1: "SignWith pk s t = (None, ?t1)"
    by (simp add: SignWith_aligned [OF inv])
  have sw2: "SignWith pk s' ?t1 = (None, ?t1)"
    using inv0 by (rule SignWith_second)
  have inv1: "signatures_inv ?t1"
  proof (cases "keyAlreadySigned pk ?t0")
    case True
    with inv0 show ?thesis by simp
  next
    case False
    with signEach_inv(1) [OF inv0 False, of s] show ?thesis by simp
  qed
  have one: "\<forall>m \<in> set (signatures ?t1). length (entriesOf pk m) = 1"
  proof (cases "keyAlreadySigned pk ?t0")
    case True
    with already_signed_once [OF inv0 True] show ?thesis by simp
  next
    case False
    with signEach_inv(2) [OF inv0 False, of s] show ?thesis by simp
  qed
  have len1: "length (signatures ?t1) = length (transactions ?t1)"
    using inv1 by (rule signatures_inv_length)
  have tx1: "transactions ?t1 = transactions ?t0" "frozen ?t1 = frozen ?t0"
    "nodeIDs ?t1 = nodeIDs ?t0"
    by simp_all
  have shape: "if IsFrozen ?t1 then length (transactions ?t1) = length (nodeIDs ?t1)
          else ?t1 = ?t0 \<and> transactions ?t1 = [] \<and> signatures ?t1 = []"
  proof (cases "frozen ?t0")
    case True
    with pn0 have "length (transactions ?t0) = length (nodeIDs ?t0)"
      by (simp add: per_node_inv_def)
    with True show ?thesis
      unfolding IsFrozen_def isFrozen_def tx1 by simp
  next
    case False
    with pn0 have e: "transactions ?t0 = []" "signatures ?t0 = []"
      by (simp_all add: per_node_inv_def)
    then have "signEach pk s ?t0 = signatures ?t0"
      by (simp add: signEach_def)
    then have "?t1 = ?t0"
      by simp
    with False e show ?thesis
      unfolding IsFrozen_def isFrozen_def by simp
  qed
  have each: "\<forall>i < length (transactions ?t1).
            length (entriesOf pk (signatures ?t1 ! i)) = 1
          \<and> SigPair (signatures ?t1 ! i) =
              (if keyAlreadySigned pk ?t0 then SigPair (signatures ?t0 ! i)
               else SigPair (signatures ?t0 ! i)
                      @ [toSignaturePairProtobuf pk (s (BodyBytes (transactions ?t1 ! i)))])"
  proof (intro allI impI conjI)
    fix i assume i: "i < length (transactions ?t1)"
    with len1 have "signatures ?t1 ! i \<in> set (signatures ?t1)"
      by (metis nth_mem)
    with one show "length (entriesOf pk (signatures ?t1 ! i)) = 1"
      by blast
    from i have i0: "i < length (transactions ?t0)"
      unfolding tx1 .
    show "SigPair (signatures ?t1 ! i) =
              (if keyAlreadySigned pk ?t0 then SigPair (signatures ?t0 ! i)
               else SigPair (signatures ?t0 ! i)
                      @ [toSignaturePairProtobuf pk (s (BodyBytes (transactions ?t1 ! i)))])"
      using signEach_nth [OF i0 len0, of pk s] by simp
  qed
  have d0: "\<forall>m \<in> set (signatures t). distinct (signedKeys m)"
    using signatures_inv_distinct [OF inv] by blast
  have d1: "\<forall>m \<in> set (signatures ?t1). distinct (signedKeys m)"
    using signatures_inv_distinct [OF inv1] by blast
  have "\<exists>t0 t1.
        t0 = (if IsFrozen t then t else snd (Freeze t))
      \<and> t1 = (if keyAlreadySigned pk t0 then t0 else t0\<lparr>signatures := signEach pk s t0\<rparr>)
      \<and> SignWith pk s t = (None, t1)
      \<and> SignWith pk s' t1 = (None, t1)
      \<and> (if IsFrozen t1 then length (transactions t1) = length (nodeIDs t1)
          else t1 = t0 \<and> transactions t1 = [] \<and> signatures t1 = [])
      \<and> length (signatures t1) = length (transactions t1)
      \<and> (\<forall>i < length (transactions t1).
            length (entriesOf pk (signatures t1 ! i)) = 1
          \<and> SigPair (signatures t1 ! i) =
              (if keyAlreadySigned pk t0 then SigPair (signatures t0 ! i)
               else SigPair (signatures t0 ! i)
                      @ [toSignaturePairProtobuf pk (s (BodyBytes (transactions t1 ! i)))]))
      \<and> (\<forall>m \<in> set (signatures t1). length (entriesOf pk m) = 1)
      \<and> signatures_inv t1
      \<and> (\<forall>m \<in> set (signatures t1). distinct (signedKeys m))"
  proof (rule exI [of _ ?t0], rule exI [of _ ?t1], intro conjI)
    show "?t0 = (if IsFrozen t then t else snd (Freeze t))" by (rule preSign_eq)
    show "?t1 = ?t1" by (rule refl)
  qed (rule sw1 sw2 shape len1 each one inv1 d1)+
  with d0 show ?thesis
    by (rule conjI)
qed

lemma reachable_exampleFrozen: "reachable exampleFrozen"
  unfolding exampleFrozen_def exampleMutable_def Freeze_def
  by (intro reachable.intros)

lemma exampleFrozen_signEach:
  "signEach exampleKey exampleSigner exampleFrozen
     = [\<lparr>SigPair = [\<lparr>PubKeyPrefix = [1, 2, 3], Signature = [7, 7]\<rparr>]\<rparr>,
        \<lparr>SigPair = [\<lparr>PubKeyPrefix = [1, 2, 3], Signature = [7, 7]\<rparr>]\<rparr>]"
  "\<not> keyAlreadySigned exampleKey exampleFrozen"
  by (simp_all add: example_defs setter_defs freeze_defs signEach_def
      toSignaturePairProtobuf_def keyAlreadySigned_def)

lemma exampleSigned_eval:
  "SignWith exampleKey exampleSigner exampleFrozen = (None, exampleSigned)"
  "signatures exampleSigned
     = [\<lparr>SigPair = [\<lparr>PubKeyPrefix = [1, 2, 3], Signature = [7, 7]\<rparr>]\<rparr>,
        \<lparr>SigPair = [\<lparr>PubKeyPrefix = [1, 2, 3], Signature = [7, 7]\<rparr>]\<rparr>]"
proof -
  have p: "preSign exampleFrozen = exampleFrozen"
    using exampleFrozen_eval by (simp add: preSign_def)
  have sw: "SignWith exampleKey exampleSigner exampleFrozen
      = (None, exampleFrozen\<lparr>signatures := signEach exampleKey exampleSigner exampleFrozen\<rparr>)"
    using exampleFrozen_signEach(2)
    by (simp add: SignWith_aligned [OF reachable_signatures_inv [OF reachable_exampleFrozen]] p)
  show "SignWith exampleKey exampleSigner exampleFrozen = (None, exampleSigned)"
    unfolding exampleSigned_def sw by simp
  show "signatures exampleSigned
     = [\<lparr>SigPair = [\<lparr>PubKeyPrefix = [1, 2, 3], Signature = [7, 7]\<rparr>]\<rparr>,
        \<lparr>SigPair = [\<lparr>PubKeyPrefix = [1, 2, 3], Signature = [7, 7]\<rparr>]\<rparr>]"
    unfolding exampleSigned_def sw by (simp add: exampleFrozen_signEach(1))
qed

lemma reachable_exampleNoID: "reachable exampleNoID"
  unfolding exampleNoID_def
  by (intro reachable.intros)

lemma exampleNoID_eval:
  "\<not> IsFrozen exampleNoID"
  "Freeze exampleNoID = (Some errNoTransactionID, exampleNoID)"
  "signatures exampleNoID = []"
  "transactions exampleNoID = []"
  "nodeIDs exampleNoID = [exampleAccount 3, exampleAccount 4]"
proof -
  show u: "\<not> IsFrozen exampleNoID"
    and "signatures exampleNoID = []"
    and "transactions exampleNoID = []"
    and "nodeIDs exampleNoID = [exampleAccount 3, exampleAccount 4]"
    by (simp_all add: exampleNoID_def example_defs setter_defs)
  have "TransactionBody_TransactionID (pbBody exampleNoID) = None"
    by (simp add: exampleNoID_def example_defs setter_defs)
  then show "Freeze exampleNoID = (Some errNoTransactionID, exampleNoID)"
    by (simp add: Freeze_eq)
qed

theorem SignWith_twice_witness:
  "reachable exampleFrozen
   \<and> SignWith exampleKey exampleSigner exampleFrozen = (None, exampleSigned)
   \<and> SignWith exampleKey exampleSigner exampleSigned = (None, exampleSigned)
   \<and> map (\<lambda>m. length (entriesOf exampleKey m)) (signatures exampleSigned) = [1, 1]
   \<and> reachable exampleNoID
   \<and> \<not> IsFrozen exampleNoID
   \<and> nodeIDs exampleNoID = [exampleAccount 3, exampleAccount 4]
   \<and> SignWith exampleKey exampleSigner exampleNoID = (None, exampleNoID)
   \<and> signatures exampleNoID = []"
proof -
  from SignWith_twice [OF reachable_exampleFrozen, of exampleKey exampleSigner exampleSigner]
  obtain t1 where t1: "SignWith exampleKey exampleSigner exampleFrozen = (None, t1)"
    "SignWith exampleKey exampleSigner t1 = (None, t1)"
    by (elim conjE exE)
  from t1(1) have "t1 = exampleSigned"
    by (simp add: exampleSigned_eval(1))
  with t1 have a: "SignWith exampleKey exampleSigner exampleSigned = (None, exampleSigned)"
    by simp
  have b: "map (\<lambda>m. length (entriesOf exampleKey m)) (signatures exampleSigned) = [1, 1]"
    by (simp add: exampleSigned_eval(2) entriesOf_def exampleKey_def)
  from SignWith_twice [OF reachable_exampleNoID, of exampleKey exampleSigner exampleSigner]
  obtain u0 u1 where u: "u0 = (if IsFrozen exampleNoID then exampleNoID else snd (Freeze exampleNoID))"
    "u1 = (if keyAlreadySigned exampleKey u0 then u0
           else u0\<lparr>signatures := signEach exampleKey exampleSigner u0\<rparr>)"
    "SignWith exampleKey exampleSigner exampleNoID = (None, u1)"
    by (elim conjE exE)
  from u(1) have u0: "u0 = exampleNoID"
    by (simp add: exampleNoID_eval)
  have "signEach exampleKey exampleSigner exampleNoID = signatures exampleNoID"
    by (simp add: signEach_def exampleNoID_eval)
  then have "exampleNoID\<lparr>signatures := signEach exampleKey exampleSigner exampleNoID\<rparr> = exampleNoID"
    by simp
  with u(2) have "u1 = exampleNoID"
    unfolding u0 by simp
  with u(3) have c: "SignWith exampleKey exampleSigner exampleNoID = (None, exampleNoID)"
    by simp
  show ?thesis
    using reachable_exampleFrozen exampleSigned_eval(1) a b reachable_exampleNoID
      exampleNoID_eval c
    by simp
qed

section \<open>Execute: the operator's signature\<close>

text \<open>
  C6, as amended. For every reachable frozen transaction whose payer account (the
  account of \<open>id\<close>) equals the account of the client's operator, that account not
  being the zero account: the transaction \<^verbatim>\<open>Execute\<close> hands to the execution engine
  holds exactly one entry for the operator's key in every signature map; it is the
  transaction as given when the operator's key signed already, and the transaction
  with the operator's signature of every body appended otherwise. \<^verbatim>\<open>Execute\<close>
  answers with the engine's error, or with the TransactionID and the engine's node.
\<close>

theorem Execute_signs_for_operator:
  "reachable t \<Longrightarrow> IsFrozen t \<Longrightarrow> operator c = Some op \<Longrightarrow>
   \<not> isZero (Operator_accountID op) \<Longrightarrow>
   equals (Operator_accountID op) (TransactionID_AccountID (id' t)) \<Longrightarrow>
   \<exists>t'. Execute_beforeDispatch (Some c) t = (None, t')
      \<and> (\<forall>m \<in> set (signatures t'). length (entriesOf (Operator_publicKey op) m) = 1)
      \<and> (keyAlreadySigned (Operator_publicKey op) t \<longrightarrow> t' = t)
      \<and> (\<not> keyAlreadySigned (Operator_publicKey op) t \<longrightarrow>
            t' = t\<lparr>signatures := signEach (Operator_publicKey op) (Operator_signer op) t\<rparr>)
      \<and> Execute engine (Some c) t =
          (case engine c t' of
             Inl err \<Rightarrow> (Inl err, t')
           | Inr nodeID \<Rightarrow>
               (Inr \<lparr>TransactionResponse_TransactionID = id' t', NodeID = nodeID\<rparr>, t'))"
proof -
  assume r: "reachable t" and f: "IsFrozen t" and op: "operator c = Some op"
    and nz: "\<not> isZero (Operator_accountID op)"
    and eq: "equals (Operator_accountID op) (TransactionID_AccountID (id' t))"
  have inv: "signatures_inv t"
    using r by (rule reachable_signatures_inv)
  have p: "preSign t = t"
    using f by (simp add: preSign_def)
  let ?pk = "Operator_publicKey op"
  let ?t' = "if keyAlreadySigned ?pk t then t
             else t\<lparr>signatures := signEach ?pk (Operator_signer op) t\<rparr>"
  have sw: "SignWith ?pk (Operator_signer op) t = (None, ?t')"
    by (simp add: SignWith_aligned [OF inv] p)
  have b: "Execute_beforeDispatch (Some c) t = (None, ?t')"
    using f op nz eq sw
    by (simp add: Execute_beforeDispatch_def GetOperatorAccountID_def GetOperatorPublicKey_def)
  have one: "\<forall>m \<in> set (signatures ?t'). length (entriesOf ?pk m) = 1"
  proof (cases "keyAlreadySigned ?pk t")
    case True
    with already_signed_once [OF inv True] show ?thesis by simp
  next
    case False
    with signEach_inv(2) [OF inv False, of "Operator_signer op"] show ?thesis by simp
  qed
  have e: "Execute engine (Some c) t =
          (case engine c ?t' of
             Inl err \<Rightarrow> (Inl err, ?t')
           | Inr nodeID \<Rightarrow>
               (Inr \<lparr>TransactionResponse_TransactionID = id' ?t', NodeID = nodeID\<rparr>, ?t'))"
    unfolding Execute_def b by simp
  show ?thesis
  proof (intro exI [of _ ?t'] conjI)
    show "Execute_beforeDispatch (Some c) t = (None, ?t')" by (rule b)
    show "\<forall>m \<in> set (signatures ?t'). length (entriesOf ?pk m) = 1" by (rule one)
    show "keyAlreadySigned ?pk t \<longrightarrow> ?t' = t" by simp
    show "\<not> keyAlreadySigned ?pk t \<longrightarrow>
            ?t' = t\<lparr>signatures := signEach ?pk (Operator_signer op) t\<rparr>" by simp
    show "Execute engine (Some c) t =
          (case engine c ?t' of
             Inl err \<Rightarrow> (Inl err, ?t')
           | Inr nodeID \<Rightarrow>
               (Inr \<lparr>TransactionResponse_TransactionID = id' ?t', NodeID = nodeID\<rparr>, ?t'))"
      by (rule e)
  qed
qed


theorem Execute_signs_for_operator_witness:
  "reachable exampleFrozen
   \<and> IsFrozen exampleFrozen
   \<and> operator exampleClient = Some exampleOperator
   \<and> \<not> isZero (Operator_accountID exampleOperator)
   \<and> equals (Operator_accountID exampleOperator) (TransactionID_AccountID (id' exampleFrozen))
   \<and> \<not> keyAlreadySigned exampleKey exampleFrozen
   \<and> Execute_beforeDispatch (Some exampleClient) exampleFrozen = (None, exampleSigned)
   \<and> map SigPair (signatures exampleSigned)
        = [[\<lparr>PubKeyPrefix = [1, 2, 3], Signature = [7, 7]\<rparr>],
           [\<lparr>PubKeyPrefix = [1, 2, 3], Signature = [7, 7]\<rparr>]]"
proof -
  have f: "IsFrozen exampleFrozen"
    using exampleFrozen_eval by simp
  have op: "operator exampleClient = Some exampleOperator"
    by (simp add: exampleClient_def)
  have nz: "\<not> isZero (Operator_accountID exampleOperator)"
    by (simp add: isZero_def exampleOperator_def exampleAccount_def)
  have eq: "equals (Operator_accountID exampleOperator) (TransactionID_AccountID (id' exampleFrozen))"
    using exampleFrozen_ready
    by (simp add: equals_def exampleOperator_def exampleTransactionID_def)
  have k: "Operator_publicKey exampleOperator = exampleKey"
    "Operator_signer exampleOperator = exampleSigner"
    by (simp_all add: exampleOperator_def)
  from Execute_signs_for_operator [OF reachable_exampleFrozen f op nz eq]
  obtain t' where t': "Execute_beforeDispatch (Some exampleClient) exampleFrozen = (None, t')"
    "\<not> keyAlreadySigned (Operator_publicKey exampleOperator) exampleFrozen \<longrightarrow>
        t' = exampleFrozen\<lparr>signatures := signEach (Operator_publicKey exampleOperator)
                (Operator_signer exampleOperator) exampleFrozen\<rparr>"
    by blast
  from t'(2) exampleFrozen_signEach(2)
  have "t' = exampleFrozen\<lparr>signatures := signEach exampleKey exampleSigner exampleFrozen\<rparr>"
    unfolding k by blast
  also have "\<dots> = exampleSigned"
    using exampleSigned_eval(1) exampleFrozen_signEach(2) exampleFrozen_eval
    by (simp add: SignWith_aligned [OF reachable_signatures_inv [OF reachable_exampleFrozen]]
        preSign_def)
  finally have "t' = exampleSigned" .
  with t'(1) f op nz eq reachable_exampleFrozen exampleFrozen_signEach(2) show ?thesis
    by (simp add: exampleSigned_eval(2))
qed

text \<open>
  C6 as stated fails for an operator configured with the zero account: the guard
  \<^verbatim>\<open>!client.GetOperatorAccountID().isZero()\<close> skips the signing although the payer
  account equals the operator's, and the transaction goes to the engine unsigned.
\<close>

theorem Execute_zero_operator_not_signed:
  "IsFrozen exampleZeroPayerFrozen
   \<and> operator exampleZeroOperatorClient
        = Some (exampleOperator\<lparr>Operator_accountID := zeroAccountID\<rparr>)
   \<and> TransactionID_AccountID (id' exampleZeroPayerFrozen) = zeroAccountID
   \<and> equals (GetOperatorAccountID exampleZeroOperatorClient)
        (TransactionID_AccountID (id' exampleZeroPayerFrozen))
   \<and> Execute_beforeDispatch (Some exampleZeroOperatorClient) exampleZeroPayerFrozen
        = (None, exampleZeroPayerFrozen)
   \<and> map SigPair (signatures exampleZeroPayerFrozen) = [[], []]
   \<and> \<not> keyAlreadySigned (GetOperatorPublicKey exampleZeroOperatorClient) exampleZeroPayerFrozen"
proof -
  have f: "IsFrozen exampleZeroPayerFrozen"
    and i: "TransactionID_AccountID (id' exampleZeroPayerFrozen) = zeroAccountID"
    and s: "map SigPair (signatures exampleZeroPayerFrozen) = [[], []]"
    by (simp_all add: exampleZeroPayerFrozen_def example_defs setter_defs freeze_defs)
  have op: "operator exampleZeroOperatorClient
        = Some (exampleOperator\<lparr>Operator_accountID := zeroAccountID\<rparr>)"
    by (simp add: exampleZeroOperatorClient_def)
  have a: "GetOperatorAccountID exampleZeroOperatorClient = zeroAccountID"
    by (simp add: GetOperatorAccountID_def op)
  have z: "isZero zeroAccountID" "equals zeroAccountID zeroAccountID"
    by (simp_all add: isZero_def equals_def zeroAccountID_def)
  have b: "Execute_beforeDispatch (Some exampleZeroOperatorClient) exampleZeroPayerFrozen
        = (None, exampleZeroPayerFrozen)"
    using f z by (simp add: Execute_beforeDispatch_def a)
  have k: "\<not> keyAlreadySigned (GetOperatorPublicKey exampleZeroOperatorClient) exampleZeroPayerFrozen"
    using s by (auto simp: keyAlreadySigned_def list_ex_iff)
  from f op i z(2) b s k show ?thesis
    by (simp add: a)
qed

section \<open>Freeze on a frozen transaction: TransactionID and node list\<close>

lemma frozen_has_id_eqI:
  assumes "frozen t' = frozen t"
    and "TransactionBody_TransactionID (pbBody t') = TransactionBody_TransactionID (pbBody t)"
    and "frozen_has_id t"
  shows "frozen_has_id t'"
  using assms(3) unfolding frozen_has_id_def assms(1,2) .

lemma frozen_has_id_setters:
  assumes "frozen_has_id t"
  shows "frozen_has_id (snd (AddHbarTransfer accountID amount t))"
    "frozen_has_id (snd (AddTokenTransfer tokenID accountID v t))"
    "frozen_has_id (snd (SetMaxTransactionFee fee t))"
    "frozen_has_id (snd (SetTransactionMemo memo t))"
    "frozen_has_id (snd (SetTransactionValidDuration duration t))"
    "frozen_has_id (snd (SetTransactionID transactionID t))"
    "frozen_has_id (snd (SetNodeAccountIDs nodeID t))"
  using assms
  by (cases "frozen t"; simp add: frozen_has_id_def setter_defs Let_def split: option.splits)+

lemma initTransactionID_ok_set:
  "initTransactionID client t = (None, t') \<Longrightarrow>
   TransactionBody_TransactionID (pbBody t') \<noteq> None"
  by (auto simp: initTransactionID_def Transaction_SetTransactionID_def split: option.splits)

lemma transaction_freezeWith_body:
  "transaction_freezeWith client t = (e, t') \<Longrightarrow> pbBody t' = pbBody t"
  by (cases "nodeIDs t = []"; cases client) (auto simp: transaction_freezeWith_def)

lemma FreezeWith_success_id:
  assumes "FreezeWith client t = (None, t')"
  shows "TransactionBody_TransactionID (pbBody t') \<noteq> None"
proof -
  obtain e2 t2 where i: "initTransactionID client (initFee client t) = (e2, t2)"
    by (cases "initTransactionID client (initFee client t)")
  show ?thesis
  proof (cases e2)
    case (Some e)
    with i assms show ?thesis
      by (simp add: FreezeWith_def)
  next
    case None
    with i assms have f: "transaction_freezeWith client
        (t2\<lparr>pbBody := (pbBody t2)\<lparr>Data := TransactionBody_CryptoTransfer\<rparr>\<rparr>) = (None, t')"
      by (simp add: FreezeWith_def onFreeze_def)
    from i None have "TransactionBody_TransactionID (pbBody t2) \<noteq> None"
      by (simp add: initTransactionID_ok_set)
    with transaction_freezeWith_body [OF f] show ?thesis
      by simp
  qed
qed

lemma frozen_has_id_FreezeWith:
  assumes "frozen_has_id t"
  shows "frozen_has_id (snd (FreezeWith client t))"
proof -
  obtain e t' where f: "FreezeWith client t = (e, t')"
    by (cases "FreezeWith client t")
  have "frozen_has_id t'"
  proof (cases e)
    case None
    with f FreezeWith_success_id [of client t t'] show ?thesis
      by (simp add: frozen_has_id_def)
  next
    case (Some err)
    with f FreezeWith_error_cases [of client t err t']
    have "t' = initFee client t
          \<or> t' = t\<lparr>pbBody := (pbBody t)\<lparr>Data := TransactionBody_CryptoTransfer\<rparr>\<rparr>"
      by blast
    then have "frozen t' = frozen t"
      "TransactionBody_TransactionID (pbBody t') = TransactionBody_TransactionID (pbBody t)"
      by auto
    then show ?thesis
      using assms by (rule frozen_has_id_eqI)
  qed
  then show ?thesis
    unfolding f snd_conv .
qed

lemma frozen_has_id_signatures:
  "frozen_has_id (t\<lparr>signatures := X\<rparr>) = frozen_has_id t"
  by (simp add: frozen_has_id_def)

lemma frozen_has_id_preSign:
  "frozen_has_id t \<Longrightarrow> frozen_has_id (preSign t)"
  by (simp add: preSign_def Freeze_def frozen_has_id_FreezeWith)

lemma frozen_has_id_SignWith:
  assumes "signatures_inv t" and "frozen_has_id t"
  shows "frozen_has_id (snd (SignWith pk s t))"
  using frozen_has_id_preSign [OF assms(2)]
  by (simp add: SignWith_aligned [OF assms(1)] frozen_has_id_signatures)

lemma frozen_has_id_SignWithOperator:
  assumes "signatures_inv t" and "frozen_has_id t"
  shows "frozen_has_id (snd (SignWithOperator client t))"
proof (cases client)
  case None
  with assms show ?thesis by (simp add: SignWithOperator_def)
next
  case (Some c)
  show ?thesis
  proof (cases "operator c")
    case None
    with Some assms show ?thesis by (simp add: SignWithOperator_def)
  next
    case op: (Some op)
    let ?t1 = "if \<not> IsFrozen t then snd (FreezeWith (Some c) t) else t"
    have "signatures_inv ?t1" "frozen_has_id ?t1"
      using assms by (simp_all add: signatures_inv_FreezeWith frozen_has_id_FreezeWith)
    then have "frozen_has_id (snd (SignWith (Operator_publicKey op) (Operator_signer op) ?t1))"
      by (rule frozen_has_id_SignWith)
    with Some op show ?thesis
      by (simp add: SignWithOperator_def Let_def)
  qed
qed

lemma frozen_has_id_Execute:
  assumes "signatures_inv t" and "frozen_has_id t"
  shows "frozen_has_id (snd (Execute_beforeDispatch client t))"
proof -
  let ?t1 = "if \<not> IsFrozen t then snd (FreezeWith client t) else t"
  have inv1: "signatures_inv ?t1" "frozen_has_id ?t1"
    using assms by (simp_all add: signatures_inv_FreezeWith frozen_has_id_FreezeWith)
  show ?thesis
  proof (cases client)
    case None
    with inv1(2) show ?thesis
      by (auto simp: Execute_beforeDispatch_def Let_def split: if_splits)
  next
    case (Some c)
    show ?thesis
    proof (cases "operator c")
      case None
      with Some inv1(2) show ?thesis
        by (auto simp: Execute_beforeDispatch_def Let_def split: if_splits)
    next
      case op: (Some op)
      have "frozen_has_id (snd (SignWith (GetOperatorPublicKey c) (Operator_signer op) ?t1))"
        using inv1 by (rule frozen_has_id_SignWith)
      with Some op inv1(2) show ?thesis
        by (auto simp: Execute_beforeDispatch_def Let_def split: if_splits)
    qed
  qed
qed

lemma reachable_frozen_has_id:
  "reachable t \<Longrightarrow> frozen_has_id t"
proof (induction rule: reachable.induct)
  case reachable_new
  show ?case
    by (simp add: frozen_has_id_def NewTransferTransaction_def newTransaction_def
        Transaction.extend_def TransferTransaction.fields_def)
next
  case (reachable_FreezeWith t client)
  then show ?case by (simp add: frozen_has_id_FreezeWith)
next
  case (reachable_SignWith t publicKey sign)
  then show ?case by (simp add: frozen_has_id_SignWith reachable_signatures_inv)
next
  case (reachable_SignWithOperator t client)
  then show ?case by (simp add: frozen_has_id_SignWithOperator reachable_signatures_inv)
next
  case (reachable_Execute t client)
  then show ?case by (simp add: frozen_has_id_Execute reachable_signatures_inv)
qed (simp_all add: frozen_has_id_setters)

text \<open>
  On a frozen transaction with a candidate node list that is not empty, reachable
  through the functions of the file, a further \<^verbatim>\<open>FreezeWith\<close>, with any client or
  none, and a further \<^verbatim>\<open>Freeze()\<close> return no error, leave the transaction frozen and
  keep its TransactionID and its candidate node list.
\<close>

lemma FreezeWith_frozen_keeps_id_and_nodes:
  "reachable t \<Longrightarrow> IsFrozen t \<Longrightarrow> nodeIDs t \<noteq> [] \<Longrightarrow>
   (\<exists>t'. FreezeWith client t = (None, t') \<and> IsFrozen t'
      \<and> id' t' = id' t
      \<and> GetTransactionID t' = GetTransactionID t
      \<and> GetNodeAccountIDs t' = GetNodeAccountIDs t)
   \<and> (\<exists>t'. Freeze t = (None, t') \<and> IsFrozen t'
      \<and> id' t' = id' t
      \<and> GetTransactionID t' = GetTransactionID t
      \<and> GetNodeAccountIDs t' = GetNodeAccountIDs t)"
proof -
  assume r: "reachable t" and f: "IsFrozen t" and n: "nodeIDs t \<noteq> []"
  from reachable_frozen_has_id [OF r] f
  obtain x where x: "TransactionBody_TransactionID (pbBody t) = Some x"
    by (auto simp: frozen_has_id_def IsFrozen_def isFrozen_def)
  show ?thesis
    unfolding Freeze_def FreezeWith_ready [OF x n]
    by (simp add: IsFrozen_def isFrozen_def GetTransactionID_def Transaction_GetTransactionID_def
        GetNodeAccountIDs_def Transaction_GetNodeAccountIDs_def)
qed



end
